theory Spec2Isabelle
  imports Complex_Main "HOL-Library.Word"
begin

section \<open>Configuration\<close>

text \<open>
  The module-level constants of \<^verbatim>\<open>auto_quality_optimizer-webp.py\<close>. The four numeric
  knobs are collected in a record, so that properties can be stated for any search range
  and target; \<open>source_config\<close> holds the values written in the source. Python integers
  are unbounded (\<open>int\<close>). A similarity score is a Python float: a real number or NaN
  (\<open>pyfloat\<close> below); the rounding of floats is not modelled.
\<close>

record config =
  TARGET_SSIM :: real
  MIN_QUALITY :: int
  MAX_QUALITY :: int
  WEBP_METHOD :: int

definition source_config :: config where
  "source_config =
     \<lparr>TARGET_SSIM = 98 / 100, MIN_QUALITY = 40, MAX_QUALITY = 95, WEBP_METHOD = 6\<rparr>"

definition SOURCE_FOLDER :: string where
  "SOURCE_FOLDER = ''images''"

definition OUTPUT_FOLDER :: string where
  "OUTPUT_FOLDER = ''optimized_images''"

section \<open>Commands, failures and the environment\<close>

text \<open>
  A command line is the list of arguments handed to \<^verbatim>\<open>subprocess.run\<close>. \<open>Str s\<close> is the
  string \<open>s\<close>; \<open>StrOf n\<close> is the argument \<^verbatim>\<open>str(n)\<close> for the integer \<open>n\<close>.
\<close>

datatype arg = Str string | StrOf int

type_synonym command = "arg list"

text \<open>
  \<^verbatim>\<open>subprocess.run(cmd, capture_output=True, check=True)\<close> raises \<^verbatim>\<open>CalledProcessError\<close>
  when the exit status is not zero, and \<^verbatim>\<open>os.path.getsize\<close> raises \<^verbatim>\<open>FileNotFoundError\<close>
  for a path that holds no file; nothing in the program catches either.
\<close>

datatype failure = CalledProcessError int command | FileNotFoundError string

text \<open>
  A Python float: a number or NaN. Every comparison with NaN is false, so the test
  \<^verbatim>\<open>current_ssim >= TARGET_SSIM\<close> of the search is \<open>float_ge\<close>.
\<close>

datatype pyfloat = Float real | NaN

fun float_ge :: "pyfloat \<Rightarrow> real \<Rightarrow> bool" where
  "float_ge (Float v) t = (v \<ge> t)"
| "float_ge NaN t = False"

text \<open>A grey-scale image (mode \<^verbatim>\<open>L\<close>): its size and its 8-bit pixels.\<close>

record image =
  img_size :: "nat \<times> nat"
  img_arr :: "8 word list"

text \<open>
  The files: a path holds a file or nothing. \<open>'f\<close> is what a file holds.
\<close>

type_synonym 'f files = "string \<Rightarrow> 'f option"

text \<open>
  Everything the program asks of the outside world. A library call that raises an
  \<^verbatim>\<open>Exception\<close> returns \<open>Inl msg\<close>, with \<open>msg\<close> the text of the exception.
  \<^item> \<open>which\<close>: \<^verbatim>\<open>shutil.which\<close>;
  \<^item> \<open>listdir\<close>: \<^verbatim>\<open>os.listdir\<close>;
  \<^item> \<open>subprocess_run\<close>: the exit status of the command and the files as it leaves them;
  \<^item> \<open>file_size\<close>: the size \<^verbatim>\<open>os.path.getsize\<close> reports for a file;
  \<^item> \<open>decode_L\<close>: what \<^verbatim>\<open>Image.open(path).convert('L')\<close> makes of a file that exists;
  \<^item> \<open>resize_LANCZOS\<close>: \<^verbatim>\<open>img.resize(size, Image.Resampling.LANCZOS)\<close>;
  \<^item> \<open>ssim\<close>: \<^verbatim>\<open>skimage.metrics.structural_similarity(a, b, data_range=r)\<close>.
\<close>

record 'f env =
  which :: "string \<Rightarrow> string option"
  listdir :: "string \<Rightarrow> string list"
  subprocess_run :: "command \<Rightarrow> int \<times> 'f files"
  file_size :: "'f \<Rightarrow> nat"
  decode_L :: "'f \<Rightarrow> string + image"
  resize_LANCZOS :: "image \<Rightarrow> nat \<times> nat \<Rightarrow> string + image"
  ssim :: "image \<Rightarrow> image \<Rightarrow> 8 word \<Rightarrow> string + pyfloat"

definition is_tool_installed :: "'f env \<Rightarrow> string \<Rightarrow> bool" where
  "is_tool_installed env name = (which env name \<noteq> None)"

text \<open>The text of the \<^verbatim>\<open>FileNotFoundError\<close> for a path.\<close>

definition no_such_file :: "string \<Rightarrow> string" where
  "no_such_file path =
     ''[Errno 2] No such file or directory: '' @ [CHR 0x27] @ path @ [CHR 0x27]"

text \<open>\<^verbatim>\<open>Image.open(path).convert('L')\<close>: it raises when no file is at the path.\<close>

definition image_open_L :: "'f env \<Rightarrow> 'f files \<Rightarrow> string \<Rightarrow> string + image" where
  "image_open_L env fs path =
     (case fs path of None \<Rightarrow> Inl (no_such_file path) | Some f \<Rightarrow> decode_L env f)"

text \<open>\<^verbatim>\<open>os.path.getsize(path)\<close>: it raises \<^verbatim>\<open>FileNotFoundError\<close> when no file is at the path.\<close>

definition getsize :: "'f env \<Rightarrow> 'f files \<Rightarrow> string \<Rightarrow> failure + nat" where
  "getsize env fs path =
     (case fs path of None \<Rightarrow> Inl (FileNotFoundError path) | Some f \<Rightarrow> Inr (file_size env f))"

section \<open>The similarity evaluator\<close>

text \<open>\<^verbatim>\<open>arr.max()\<close> and \<^verbatim>\<open>arr.min()\<close> of numpy raise \<^verbatim>\<open>ValueError\<close> on an empty array.\<close>

definition arr_max :: "8 word list \<Rightarrow> string + 8 word" where
  "arr_max xs =
     (if xs = [] then Inl ''zero-size array to reduction operation maximum which has no identity''
      else Inr (fold max (tl xs) (hd xs)))"

definition arr_min :: "8 word list \<Rightarrow> string + 8 word" where
  "arr_min xs =
     (if xs = [] then Inl ''zero-size array to reduction operation minimum which has no identity''
      else Inr (fold min (tl xs) (hd xs)))"

text \<open>
  The body of the \<^verbatim>\<open>try\<close> block of \<^verbatim>\<open>calculate_ssim\<close>: both images are loaded, the second
  is resampled when the sizes differ, and the library's SSIM is taken with the data range
  \<^verbatim>\<open>img2_arr.max() - img2_arr.min()\<close> (a subtraction of two \<^verbatim>\<open>uint8\<close> values). The first
  exception ends the block.
\<close>

definition ssim_try :: "'f env \<Rightarrow> 'f files \<Rightarrow> string \<Rightarrow> string \<Rightarrow> string + pyfloat" where
  "ssim_try env fs img1_path img2_path =
     (case image_open_L env fs img1_path of
        Inl e \<Rightarrow> Inl e
      | Inr img1 \<Rightarrow>
     (case image_open_L env fs img2_path of
        Inl e \<Rightarrow> Inl e
      | Inr img2 \<Rightarrow>
     (case (if img_size img1 \<noteq> img_size img2
            then resize_LANCZOS env img2 (img_size img1) else Inr img2) of
        Inl e \<Rightarrow> Inl e
      | Inr img2' \<Rightarrow>
     (case arr_max (img_arr img2') of
        Inl e \<Rightarrow> Inl e
      | Inr mx \<Rightarrow>
     (case arr_min (img_arr img2') of
        Inl e \<Rightarrow> Inl e
      | Inr mn \<Rightarrow> ssim env img1 img2' (mx - mn))))))"

definition warning :: "string \<Rightarrow> string" where
  "warning e = ''  [Warnung] Konnte SSIM nicht berechnen: '' @ e"

text \<open>
  \<^verbatim>\<open>calculate_ssim\<close> returns the score and the lines it prints: \<^verbatim>\<open>except Exception\<close>
  turns every exception of the block into the score 0 and one warning line; what the
  library returns, a number or NaN, is returned as it is.
\<close>

definition calculate_ssim ::
  "'f env \<Rightarrow> 'f files \<Rightarrow> string \<Rightarrow> string \<Rightarrow> pyfloat \<times> string list"
where
  "calculate_ssim env fs img1_path img2_path =
     (case ssim_try env fs img1_path img2_path of
        Inr score \<Rightarrow> (score, [])
      | Inl e \<Rightarrow> (Float 0, [warning e]))"

section \<open>Paths\<close>

text \<open>\<^verbatim>\<open>os.path.join\<close> of two components, on POSIX.\<close>

definition path_join :: "string \<Rightarrow> string \<Rightarrow> string" where
  "path_join a b =
     (if b \<noteq> [] \<and> hd b = CHR ''/'' then b
      else if a = [] \<or> last a = CHR ''/'' then a @ b
      else a @ ''/'' @ b)"

text \<open>
  \<^verbatim>\<open>os.path.splitext(p)[0]\<close> for a name without a directory separator, as
  \<^verbatim>\<open>os.listdir\<close> returns them: the name up to its last dot, or the whole name when
  there is no dot or only dots come before the last one.
\<close>

definition splitext_root :: "string \<Rightarrow> string" where
  "splitext_root p =
     (let stem = rev (drop 1 (dropWhile (\<lambda>c. c \<noteq> CHR ''.'') (rev p)))
      in if CHR ''.'' \<in> set p \<and> (\<exists>c \<in> set stem. c \<noteq> CHR ''.'') then stem else p)"

definition lower_char :: "char \<Rightarrow> char" where
  "lower_char c =
     (let n = (of_char c :: nat) in if 65 \<le> n \<and> n \<le> 90 then char_of (n + 32) else c)"

definition lower :: "string \<Rightarrow> string" where
  "lower s = map lower_char s"

definition endswith :: "string \<Rightarrow> string \<Rightarrow> bool" where
  "endswith s suffix = (take (length suffix) (rev s) = rev suffix)"

definition is_source_image :: "string \<Rightarrow> bool" where
  "is_source_image filename =
     (endswith (lower filename) ''.png'' \<or> endswith (lower filename) ''.jpg''
      \<or> endswith (lower filename) ''.jpeg'')"

section \<open>The quality search\<close>

definition search_cmd :: "config \<Rightarrow> int \<Rightarrow> string \<Rightarrow> string \<Rightarrow> command" where
  "search_cmd cfg quality input_path temp_path =
     [Str ''cwebp'', Str ''-q'', StrOf quality, Str ''-m'', StrOf (WEBP_METHOD cfg),
      Str input_path, Str ''-o'', Str temp_path]"

definition final_cmd :: "config \<Rightarrow> int \<Rightarrow> string \<Rightarrow> string \<Rightarrow> command" where
  "final_cmd cfg best_quality input_path output_path =
     [Str ''cwebp'', Str ''-q'', StrOf best_quality, Str ''-m'', StrOf (WEBP_METHOD cfg),
      Str ''-mt'', Str ''-sharp_yuv'', Str input_path, Str ''-o'', Str output_path]"

definition run_checked :: "'f env \<Rightarrow> command \<Rightarrow> failure + 'f files" where
  "run_checked env cmd =
     (case subprocess_run env cmd of
        (returncode, fs) \<Rightarrow>
          if returncode \<noteq> 0 then Inl (CalledProcessError returncode cmd) else Inr fs)"

text \<open>The three variables of the binary search.\<close>

record search_state =
  low :: int
  high :: int
  best_quality :: int

text \<open>
  One entry of the search log: the variables at the start of a pass through the loop
  body, the quality it tests and the command it runs.
\<close>

record probe =
  probe_state :: search_state
  probe_quality :: int
  probe_cmd :: command

text \<open>
  The \<^verbatim>\<open>while low <= high\<close> loop. It returns the log of its passes and either the
  failure of an encoder run, which ends it, or the value of \<^verbatim>\<open>best_quality\<close> at exit.
\<close>

function search_loop ::
  "config \<Rightarrow> 'f env \<Rightarrow> string \<Rightarrow> string \<Rightarrow> search_state \<Rightarrow> probe list \<times> (failure + int)"
where
  "search_loop cfg env input_path temp_path s =
     (if low s \<le> high s then
        (let quality = (low s + high s) div 2;
             cmd = search_cmd cfg quality input_path temp_path;
             p = \<lparr>probe_state = s, probe_quality = quality, probe_cmd = cmd\<rparr>
         in case run_checked env cmd of
              Inl e \<Rightarrow> ([p], Inl e)
            | Inr fs \<Rightarrow>
                (let current_ssim = fst (calculate_ssim env fs input_path temp_path)
                 in if float_ge current_ssim (TARGET_SSIM cfg)
                    then apfst ((#) p) (search_loop cfg env input_path temp_path
                           (s\<lparr>best_quality := quality, high := quality - 1\<rparr>))
                    else apfst ((#) p) (search_loop cfg env input_path temp_path
                           (s\<lparr>low := quality + 1\<rparr>))))
      else ([], Inr (best_quality s)))"
  by pat_completeness auto
termination
  by (relation "measure (\<lambda>(cfg, env, input_path, temp_path, s). nat (high s - low s + 1))")
     auto

declare search_loop.simps [simp del]

text \<open>The search of one image, from its initial variables (lines 75 to 97).\<close>

definition quality_search ::
  "config \<Rightarrow> 'f env \<Rightarrow> string \<Rightarrow> string \<Rightarrow> probe list \<times> (failure + int)"
where
  "quality_search cfg env input_path temp_path =
     search_loop cfg env input_path temp_path
       \<lparr>low = MIN_QUALITY cfg, high = MAX_QUALITY cfg, best_quality = MAX_QUALITY cfg\<rparr>"

section \<open>One image, and the batch\<close>

text \<open>The three paths of one image: lines 67 to 70 of the source.\<close>

definition input_path :: "string \<Rightarrow> string" where
  "input_path filename = path_join SOURCE_FOLDER filename"

definition output_path :: "string \<Rightarrow> string" where
  "output_path filename = path_join OUTPUT_FOLDER (splitext_root filename @ ''.webp'')"

definition temp_path :: string where
  "temp_path = path_join OUTPUT_FOLDER ''temp.webp''"

text \<open>
  What happened to one image: the log of the search, the final command if it was run,
  and the failure that ended the processing or the quality of the final encoding.
\<close>

record outcome =
  iterations :: "probe list"
  final_invocation :: "command option"
  result :: "failure + int"

text \<open>
  The body of the \<^verbatim>\<open>for filename in os.listdir(SOURCE_FOLDER)\<close> loop, from the paths to
  the final encoding (lines 67 to 103).
\<close>

definition process_image :: "config \<Rightarrow> 'f env \<Rightarrow> string \<Rightarrow> outcome" where
  "process_image cfg env filename =
     (let searched = quality_search cfg env (input_path filename) temp_path
      in case snd searched of
           Inl e \<Rightarrow> \<lparr>iterations = fst searched, final_invocation = None, result = Inl e\<rparr>
         | Inr best \<Rightarrow>
             (let final = final_cmd cfg best (input_path filename) (output_path filename)
              in case run_checked env final of
                   Inl e \<Rightarrow>
                     \<lparr>iterations = fst searched, final_invocation = Some final, result = Inl e\<rparr>
                 | Inr fs \<Rightarrow>
                     \<lparr>iterations = fst searched, final_invocation = Some final,
                      result = Inr best\<rparr>))"

text \<open>All encoder commands run for one image, in order.\<close>

definition invocations :: "outcome \<Rightarrow> command list" where
  "invocations out =
     map probe_cmd (iterations out)
     @ (case final_invocation out of None \<Rightarrow> [] | Some c \<Rightarrow> [c])"

text \<open>
  The run of the batch: the images taken up, in order, each with the outcome of its search
  and final encoding, and the exception that left the loop, if one did.
\<close>

record report =
  processed :: "(string \<times> outcome) list"
  aborted :: "failure option"

text \<open>
  Lines 105 to 110, after the final encoding has succeeded and left the files \<open>fs\<close>: the
  scratch file is removed if it exists, then the sizes of the source and of the output
  are read. Reading the size of a file that is not there raises; this happens to the
  output when its path is the scratch path, which has just been removed.
\<close>

definition cleanup_and_sizes :: "'f env \<Rightarrow> 'f files \<Rightarrow> string \<Rightarrow> failure + nat \<times> nat" where
  "cleanup_and_sizes env fs filename =
     (let fs' = (if fs temp_path \<noteq> None then fs(temp_path := None) else fs)
      in case getsize env fs' (input_path filename) of
           Inl e \<Rightarrow> Inl e
         | Inr original_size \<Rightarrow>
             (case getsize env fs' (output_path filename) of
                Inl e \<Rightarrow> Inl e
              | Inr optimized_size \<Rightarrow> Inr (original_size, optimized_size)))"

text \<open>The files the final encoding at quality \<open>best\<close> leaves.\<close>

definition files_after_final :: "config \<Rightarrow> 'f env \<Rightarrow> string \<Rightarrow> int \<Rightarrow> 'f files" where
  "files_after_final cfg env filename best =
     snd (subprocess_run env (final_cmd cfg best (input_path filename) (output_path filename)))"

text \<open>
  The \<^verbatim>\<open>for\<close> loop over the directory listing. A name without one of the three
  extensions is skipped. No exception is caught: that of an encoder run and that of a
  size that cannot be read leave the loop, and the names after it are never looked at.
  The sizes only feed the printed report, which is not modelled.
\<close>

fun batch :: "config \<Rightarrow> 'f env \<Rightarrow> string list \<Rightarrow> report" where
  "batch cfg env [] = \<lparr>processed = [], aborted = None\<rparr>"
| "batch cfg env (filename # rest) =
     (if \<not> is_source_image filename then batch cfg env rest
      else
        (let out = process_image cfg env filename
         in case result out of
              Inl e \<Rightarrow> \<lparr>processed = [(filename, out)], aborted = Some e\<rparr>
            | Inr best \<Rightarrow>
                (case cleanup_and_sizes env (files_after_final cfg env filename best) filename of
                   Inl e \<Rightarrow> \<lparr>processed = [(filename, out)], aborted = Some e\<rparr>
                 | Inr sizes \<Rightarrow>
                     (let r = batch cfg env rest
                      in r\<lparr>processed := (filename, out) # processed r\<rparr>))))"

text \<open>\<^verbatim>\<open>auto_optimize_images\<close>: nothing is run when \<^verbatim>\<open>cwebp\<close> is not installed.\<close>

definition auto_optimize_images :: "config \<Rightarrow> 'f env \<Rightarrow> report option" where
  "auto_optimize_images cfg env =
     (if \<not> is_tool_installed env ''cwebp'' then None
      else Some (batch cfg env (listdir env SOURCE_FOLDER)))"

section \<open>What the search measures\<close>

text \<open>
  The quality a pass of the loop tests, the exit status of the encoder at a quality, and
  the score \<^verbatim>\<open>calculate_ssim\<close> returns for the file the encoder leaves at that quality, as
  the test against the target reads it.
\<close>

definition mid :: "search_state \<Rightarrow> int" where
  "mid s = (low s + high s) div 2"

definition probe_exit :: "config \<Rightarrow> 'f env \<Rightarrow> string \<Rightarrow> string \<Rightarrow> int \<Rightarrow> int" where
  "probe_exit cfg env src tmp q = fst (subprocess_run env (search_cmd cfg q src tmp))"

text \<open>
  The score as the test against the target reads it: a number is itself; a NaN, for which
  the test is false whatever the target, counts as a value below the target.
\<close>

fun as_compared :: "config \<Rightarrow> pyfloat \<Rightarrow> real" where
  "as_compared cfg (Float v) = v"
| "as_compared cfg NaN = TARGET_SSIM cfg - 1"

definition probe_ssim :: "config \<Rightarrow> 'f env \<Rightarrow> string \<Rightarrow> string \<Rightarrow> int \<Rightarrow> real" where
  "probe_ssim cfg env src tmp q =
     as_compared cfg
       (fst (calculate_ssim env (snd (subprocess_run env (search_cmd cfg q src tmp))) src tmp))"

definition probe_at :: "config \<Rightarrow> string \<Rightarrow> string \<Rightarrow> search_state \<Rightarrow> probe" where
  "probe_at cfg src tmp s =
     \<lparr>probe_state = s, probe_quality = mid s, probe_cmd = search_cmd cfg (mid s) src tmp\<rparr>"

text \<open>The same for the image \<open>filename\<close> of the batch, and the exit status of its final run.\<close>

definition encoder_status :: "config \<Rightarrow> 'f env \<Rightarrow> string \<Rightarrow> int \<Rightarrow> int" where
  "encoder_status cfg env filename q = probe_exit cfg env (input_path filename) temp_path q"

definition similarity :: "config \<Rightarrow> 'f env \<Rightarrow> string \<Rightarrow> int \<Rightarrow> real" where
  "similarity cfg env filename q = probe_ssim cfg env (input_path filename) temp_path q"

definition final_status :: "config \<Rightarrow> 'f env \<Rightarrow> string \<Rightarrow> int \<Rightarrow> int" where
  "final_status cfg env filename q =
     fst (subprocess_run env (final_cmd cfg q (input_path filename) (output_path filename)))"

text \<open>
  The values \<^verbatim>\<open>best_quality\<close> holds in turn: at the start of each pass, and at the end of
  the search.
\<close>

definition best_history :: "probe list \<times> (failure + int) \<Rightarrow> int list" where
  "best_history searched =
     map (\<lambda>p. best_quality (probe_state p)) (fst searched)
     @ (case snd searched of Inl e \<Rightarrow> [] | Inr best \<Rightarrow> [best])"

text \<open>The two conditions under which the search is a binary search for a threshold.\<close>

definition encoder_succeeds :: "config \<Rightarrow> 'f env \<Rightarrow> string \<Rightarrow> bool" where
  "encoder_succeeds cfg env filename =
     (\<forall>q \<in> {MIN_QUALITY cfg..MAX_QUALITY cfg}. encoder_status cfg env filename q = 0)"

definition similarity_monotone :: "config \<Rightarrow> 'f env \<Rightarrow> string \<Rightarrow> bool" where
  "similarity_monotone cfg env filename =
     (\<forall>q \<in> {MIN_QUALITY cfg..MAX_QUALITY cfg}. \<forall>q' \<in> {q..MAX_QUALITY cfg}.
        similarity cfg env filename q \<le> similarity cfg env filename q')"

section \<open>What the evaluator compares\<close>

text \<open>
  The two images handed to the library for two paths: the reference as it is decoded, and
  the candidate as it is decoded or, when its size differs, resampled to the size of the
  reference. The data range handed over with them is the largest minus the smallest pixel
  value of that candidate.
\<close>

definition compared :: "'f env \<Rightarrow> 'f files \<Rightarrow> string \<Rightarrow> string \<Rightarrow> image \<Rightarrow> image \<Rightarrow> bool" where
  "compared env fs img1_path img2_path img1 img2' =
     (\<exists>img2. image_open_L env fs img1_path = Inr img1
        \<and> image_open_L env fs img2_path = Inr img2
        \<and> (if img_size img1 = img_size img2 then img2' = img2
            else resize_LANCZOS env img2 (img_size img1) = Inr img2'))"

definition data_range :: "image \<Rightarrow> 8 word" where
  "data_range img = Max (set (img_arr img)) - Min (set (img_arr img))"

text \<open>A score in the closed interval from 0 to 1; NaN is not.\<close>

fun in_unit :: "pyfloat \<Rightarrow> bool" where
  "in_unit (Float v) = (0 \<le> v \<and> v \<le> 1)"
| "in_unit NaN = False"

fun at_least :: "real \<Rightarrow> pyfloat \<Rightarrow> bool" where
  "at_least t (Float v) = (t \<le> v)"
| "at_least t NaN = False"

text \<open>
  Two properties of the SSIM of the library, which is not part of the program. Its window
  is 7 pixels wide: it raises for an image with a side below 7, and it scores an image
  with both sides of 7 or more against itself, under a data range that is not 0, at 0.999
  or more (1, up to rounding).
\<close>

definition ssim_window :: nat where
  "ssim_window = 7"

definition fits_window :: "image \<Rightarrow> bool" where
  "fits_window img = (ssim_window \<le> fst (img_size img) \<and> ssim_window \<le> snd (img_size img))"

definition window_error :: string where
  "window_error = ''win_size exceeds image extent''"

definition library_scores_identical :: "'f env \<Rightarrow> bool" where
  "library_scores_identical env =
     (\<forall>a r. fits_window a \<and> r \<noteq> 0 \<longrightarrow>
        (\<exists>v. ssim env a a r = Inr (Float v) \<and> 999 / 1000 \<le> v))"

definition library_needs_window :: "'f env \<Rightarrow> bool" where
  "library_needs_window env =
     (\<forall>a b r. \<not> fits_window a \<longrightarrow> ssim env a b r = Inl window_error)"


section \<open>Example worlds\<close>

text \<open>
  A world to run the program in. The encoder exits with \<open>status cmd\<close> and writes to its
  output path a file that holds the quality it was asked for; every other path holds a
  file with 0. A file decodes to an 8 by 8 image whose pixels all hold what the file
  holds; the SSIM of the library is \<open>score\<close> of the candidate's pixel value.
\<close>

definition quality_arg :: "command \<Rightarrow> int" where
  "quality_arg cmd = (case cmd of a # b # StrOf q # rest \<Rightarrow> q | _ \<Rightarrow> 0)"

definition flat_image :: "8 word \<Rightarrow> image" where
  "flat_image w = \<lparr>img_size = (8, 8), img_arr = replicate 64 w\<rparr>"

definition toy_files :: "command \<Rightarrow> int files" where
  "toy_files cmd = (\<lambda>path. Some (if cmd \<noteq> [] \<and> last cmd = Str path then quality_arg cmd else 0))"

definition toy_env :: "(command \<Rightarrow> int) \<Rightarrow> (int \<Rightarrow> real) \<Rightarrow> string list \<Rightarrow> int env" where
  "toy_env status score files =
     \<lparr>which = (\<lambda>name. Some (''/usr/bin/'' @ name)),
      listdir = (\<lambda>folder. files),
      subprocess_run = (\<lambda>cmd. (status cmd, toy_files cmd)),
      file_size = (\<lambda>q. 1024),
      decode_L = (\<lambda>q. Inr (flat_image (word_of_int q))),
      resize_LANCZOS = (\<lambda>img sz. Inr (img\<lparr>img_size := sz\<rparr>)),
      ssim = (\<lambda>a b r. Inr (Float (score (uint (hd (img_arr b))))))\<rparr>"

text \<open>Similarity 0.97 up to quality 50 and 0.99 from quality 51 on.\<close>

definition crossing_51 :: "int env" where
  "crossing_51 =
     toy_env (\<lambda>cmd. 0) (\<lambda>q. if q \<le> 50 then 97 / 100 else 99 / 100) [''photo.png'']"

text \<open>Similarity 0.97 up to quality 59 and 0.99 from quality 60 on.\<close>

definition crossing_60 :: "int env" where
  "crossing_60 =
     toy_env (\<lambda>cmd. 0) (\<lambda>q. if q \<le> 59 then 97 / 100 else 99 / 100) [''photo.png'']"

text \<open>Only quality 95 reaches the target.\<close>

definition only_95 :: "int env" where
  "only_95 = toy_env (\<lambda>cmd. 0) (\<lambda>q. if q < 95 then 1 / 2 else 99 / 100) [''photo.png'']"

text \<open>No quality reaches the target.\<close>

definition never_met :: "int env" where
  "never_met = toy_env (\<lambda>cmd. 0) (\<lambda>q. 1 / 2) [''photo.png'']"

text \<open>
  Two images in the folder; the encoder exits with status 1 on every command that reads
  the first and with 0 on the others.
\<close>

definition failing_first :: "int env" where
  "failing_first =
     toy_env (\<lambda>cmd. if Str (input_path ''a.png'') \<in> set cmd then 1 else 0)
       (\<lambda>q. 99 / 100) [''a.png'', ''b.png'']"


text \<open>
  The source image has columns of black and white in turn, the encoder leaves its
  negative, and the SSIM of the library for the two is negative, as the structural
  similarity of an image and its negative is.
\<close>

definition striped :: "8 word \<Rightarrow> 8 word \<Rightarrow> image" where
  "striped v w = \<lparr>img_size = (8, 8), img_arr = concat (replicate 32 [v, w])\<rparr>"

definition negative_ssim :: "int env" where
  "negative_ssim =
     (toy_env (\<lambda>cmd. 0) (\<lambda>q. 1) [''photo.png''])
       \<lparr>decode_L := (\<lambda>q. Inr (if q = 0 then striped 0 255 else striped 255 0)),
        ssim := (\<lambda>a b r. Inr (Float (- (19 / 20))))\<rparr>"

text \<open>
  A library with a window, as the program's is: it raises for an image smaller than the
  window, returns NaN for two images of one colour each under the data range 0, and 1
  for an image against itself under another data range. The files decode by what they
  hold: 1 to an image of one pixel, 2 to an 8 by 8 image of one colour, anything else to a
  striped 8 by 8 image.
\<close>

definition one_colour :: "image \<Rightarrow> bool" where
  "one_colour img = (\<forall>x \<in> set (img_arr img). \<forall>y \<in> set (img_arr img). x = y)"

definition window_ssim :: "image \<Rightarrow> image \<Rightarrow> 8 word \<Rightarrow> string + pyfloat" where
  "window_ssim a b r =
     (if \<not> fits_window a then Inl window_error
      else if r = 0 \<and> one_colour a \<and> one_colour b then Inr NaN
      else if a = b then Inr (Float 1)
      else Inr (Float (1 / 2)))"

definition one_pixel :: image where
  "one_pixel = \<lparr>img_size = (1, 1), img_arr = [200]\<rparr>"

definition window_world :: "int env" where
  "window_world =
     (toy_env (\<lambda>cmd. 0) (\<lambda>q. 1) [''photo.png''])
       \<lparr>decode_L :=
          (\<lambda>q. Inr (if q = 1 then one_pixel else if q = 2 then flat_image 200
                    else striped 0 255)),
        ssim := window_ssim\<rparr>"

text \<open>Every path holds a file with the same content.\<close>

definition all_files :: "int \<Rightarrow> int files" where
  "all_files c = (\<lambda>path. Some c)"

section \<open>The loop, pass by pass\<close>

lemma float_ge_as_compared:
  "float_ge x (TARGET_SSIM cfg) = (TARGET_SSIM cfg \<le> as_compared cfg x)"
  by (cases x) simp_all

lemma search_loop_exit:
  "\<not> low s \<le> high s \<Longrightarrow> search_loop cfg env i t s = ([], Inr (best_quality s))"
  by (subst search_loop.simps) simp

lemma search_loop_fail:
  assumes "low s \<le> high s" and "probe_exit cfg env i t (mid s) \<noteq> 0"
  shows "search_loop cfg env i t s =
           ([probe_at cfg i t s],
            Inl (CalledProcessError (probe_exit cfg env i t (mid s)) (search_cmd cfg (mid s) i t)))"
  using assms
  by (subst search_loop.simps)
     (simp add: Let_def run_checked_def probe_exit_def probe_at_def mid_def case_prod_beta)

lemma search_loop_hit:
  assumes "low s \<le> high s" and "probe_exit cfg env i t (mid s) = 0"
    and "TARGET_SSIM cfg \<le> probe_ssim cfg env i t (mid s)"
  shows "search_loop cfg env i t s =
           apfst ((#) (probe_at cfg i t s))
             (search_loop cfg env i t (s\<lparr>best_quality := mid s, high := mid s - 1\<rparr>))"
  using assms
  by (subst search_loop.simps)
     (simp add: Let_def run_checked_def probe_exit_def probe_ssim_def probe_at_def mid_def
           case_prod_beta float_ge_as_compared)

lemma search_loop_miss:
  assumes "low s \<le> high s" and "probe_exit cfg env i t (mid s) = 0"
    and "\<not> TARGET_SSIM cfg \<le> probe_ssim cfg env i t (mid s)"
  shows "search_loop cfg env i t s =
           apfst ((#) (probe_at cfg i t s))
             (search_loop cfg env i t (s\<lparr>low := mid s + 1\<rparr>))"
  using assms
  by (subst search_loop.simps)
     (simp add: Let_def run_checked_def probe_exit_def probe_ssim_def probe_at_def mid_def
           case_prod_beta float_ge_as_compared)

lemma mid_bounds: "low s \<le> high s \<Longrightarrow> low s \<le> mid s \<and> mid s \<le> high s"
  by (simp add: mid_def) linarith

text \<open>Induction over the width of the interval still to be searched.\<close>

lemma search_induct [case_names exit fail hit miss]:
  assumes "\<And>s. \<not> low s \<le> high s \<Longrightarrow> P s"
    and "\<And>s. low s \<le> high s \<Longrightarrow> probe_exit cfg env i t (mid s) \<noteq> 0 \<Longrightarrow> P s"
    and "\<And>s. low s \<le> high s \<Longrightarrow> probe_exit cfg env i t (mid s) = 0 \<Longrightarrow>
           TARGET_SSIM cfg \<le> probe_ssim cfg env i t (mid s) \<Longrightarrow>
           P (s\<lparr>best_quality := mid s, high := mid s - 1\<rparr>) \<Longrightarrow> P s"
    and "\<And>s. low s \<le> high s \<Longrightarrow> probe_exit cfg env i t (mid s) = 0 \<Longrightarrow>
           \<not> TARGET_SSIM cfg \<le> probe_ssim cfg env i t (mid s) \<Longrightarrow>
           P (s\<lparr>low := mid s + 1\<rparr>) \<Longrightarrow> P s"
  shows "P s"
proof (induction "nat (high s - low s + 1)" arbitrary: s rule: less_induct)
  case less
  show ?case
  proof (cases "low s \<le> high s")
    case False
    then show ?thesis by (rule assms(1))
  next
    case True
    note mb = mid_bounds [OF True]
    show ?thesis
    proof (cases "probe_exit cfg env i t (mid s) = 0")
      case False
      with True show ?thesis by (rule assms(2))
    next
      case ok: True
      show ?thesis
      proof (cases "TARGET_SSIM cfg \<le> probe_ssim cfg env i t (mid s)")
        case hit: True
        have "P (s\<lparr>best_quality := mid s, high := mid s - 1\<rparr>)"
          using mb True by (intro less) simp
        with True ok hit show ?thesis by (rule assms(3))
      next
        case miss: False
        have "P (s\<lparr>low := mid s + 1\<rparr>)"
          using mb True by (intro less) simp
        with True ok miss show ?thesis by (rule assms(4))
      qed
    qed
  qed
qed

section \<open>Properties of the loop\<close>

text \<open>Every entry of the log tests the midpoint of an interval inside the starting one.\<close>

lemma search_log_probe:
  "p \<in> set (fst (search_loop cfg env i t s)) \<Longrightarrow>
     low s \<le> low (probe_state p) \<and> high (probe_state p) \<le> high s
     \<and> low (probe_state p) \<le> probe_quality p \<and> probe_quality p \<le> high (probe_state p)
     \<and> probe_quality p = mid (probe_state p)
     \<and> probe_cmd p = search_cmd cfg (probe_quality p) i t"
proof (induction s rule: search_induct [where cfg = cfg and env = env and i = i and t = t])
  case (exit s)
  then show ?case by (simp add: search_loop_exit)
next
  case (fail s)
  then show ?case
    using mid_bounds [of s] by (auto simp: search_loop_fail probe_at_def)
next
  case (hit s)
  from hit.prems hit.hyps
  have "p = probe_at cfg i t s
        \<or> p \<in> set (fst (search_loop cfg env i t (s\<lparr>best_quality := mid s, high := mid s - 1\<rparr>)))"
    by (simp add: search_loop_hit)
  then show ?case
  proof
    assume "p = probe_at cfg i t s"
    then show ?thesis using mid_bounds [OF hit.hyps(1)] by (simp add: probe_at_def)
  next
    assume "p \<in> set (fst (search_loop cfg env i t (s\<lparr>best_quality := mid s, high := mid s - 1\<rparr>)))"
    from hit.IH [OF this] show ?thesis
      using mid_bounds [OF hit.hyps(1)] by simp
  qed
next
  case (miss s)
  from miss.prems miss.hyps
  have "p = probe_at cfg i t s
        \<or> p \<in> set (fst (search_loop cfg env i t (s\<lparr>low := mid s + 1\<rparr>)))"
    by (simp add: search_loop_miss)
  then show ?case
  proof
    assume "p = probe_at cfg i t s"
    then show ?thesis using mid_bounds [OF miss.hyps(1)] by (simp add: probe_at_def)
  next
    assume "p \<in> set (fst (search_loop cfg env i t (s\<lparr>low := mid s + 1\<rparr>)))"
    from miss.IH [OF this] show ?thesis
      using mid_bounds [OF miss.hyps(1)] by simp
  qed
qed

text \<open>The quality at exit is the starting one or a tested one.\<close>

lemma search_result_range:
  "snd (search_loop cfg env i t s) = Inr b \<Longrightarrow>
     b = best_quality s \<or> (low s \<le> b \<and> b \<le> high s)"
proof (induction s rule: search_induct [where cfg = cfg and env = env and i = i and t = t])
  case (exit s)
  then show ?case by (simp add: search_loop_exit)
next
  case (fail s)
  then show ?case by (simp add: search_loop_fail)
next
  case (hit s)
  then show ?case
    using mid_bounds [of s] by (auto simp: search_loop_hit)
next
  case (miss s)
  then show ?case
    using mid_bounds [of s] by (auto simp: search_loop_miss)
qed

text \<open>Each pass at least halves the interval.\<close>

lemma search_log_length:
  "high s - low s + 1 < 2 ^ k \<Longrightarrow> length (fst (search_loop cfg env i t s)) \<le> k"
proof (induction s arbitrary: k rule: search_induct [where cfg = cfg and env = env and i = i and t = t])
  case (exit s)
  then show ?case by (simp add: search_loop_exit)
next
  case (fail s)
  have "k \<noteq> 0"
  proof
    assume "k = 0"
    with fail.prems fail.hyps(1) show False by simp
  qed
  then show ?case using fail.hyps by (simp add: search_loop_fail Suc_le_eq)
next
  case (hit s)
  have "k \<noteq> 0"
  proof
    assume "k = 0"
    with hit.prems hit.hyps(1) show False by simp
  qed
  then obtain j where k: "k = Suc j" by (cases k) auto
  have "(mid s - 1) - low s + 1 < 2 ^ j"
    using hit.prems k by (simp add: mid_def)
  then have "length (fst (search_loop cfg env i t (s\<lparr>best_quality := mid s, high := mid s - 1\<rparr>))) \<le> j"
    by (intro hit.IH) simp
  then show ?case using hit.hyps k by (simp add: search_loop_hit)
next
  case (miss s)
  have "k \<noteq> 0"
  proof
    assume "k = 0"
    with miss.prems miss.hyps(1) show False by simp
  qed
  then obtain j where k: "k = Suc j" by (cases k) auto
  have "high s - (mid s + 1) + 1 < 2 ^ j"
    using miss.prems k by (simp add: mid_def)
  then have "length (fst (search_loop cfg env i t (s\<lparr>low := mid s + 1\<rparr>))) \<le> j"
    by (intro miss.IH) simp
  then show ?case using miss.hyps k by (simp add: search_loop_miss)
qed


text \<open>When no encoder run of the log fails, the loop ends with a quality.\<close>

lemma search_succeeds:
  "\<forall>p \<in> set (fst (search_loop cfg env i t s)). probe_exit cfg env i t (probe_quality p) = 0 \<Longrightarrow>
     \<exists>b. snd (search_loop cfg env i t s) = Inr b"
proof (induction s rule: search_induct [where cfg = cfg and env = env and i = i and t = t])
  case (exit s)
  then show ?case by (simp add: search_loop_exit)
next
  case (fail s)
  then show ?case by (simp add: search_loop_fail probe_at_def)
next
  case (hit s)
  then show ?case by (simp add: search_loop_hit)
next
  case (miss s)
  then show ?case by (simp add: search_loop_miss)
qed

text \<open>When no tested quality reaches the target, the starting quality is kept.\<close>

lemma search_none_meets:
  assumes "\<forall>p \<in> set (fst (search_loop cfg env i t s)).
             probe_exit cfg env i t (probe_quality p) = 0
             \<and> probe_ssim cfg env i t (probe_quality p) < TARGET_SSIM cfg"
  shows "snd (search_loop cfg env i t s) = Inr (best_quality s)"
  using assms
proof (induction s rule: search_induct [where cfg = cfg and env = env and i = i and t = t])
  case (exit s)
  then show ?case by (simp add: search_loop_exit)
next
  case (fail s)
  then show ?case by (simp add: search_loop_fail probe_at_def)
next
  case (hit s)
  then show ?case by (simp add: search_loop_hit probe_at_def)
next
  case (miss s)
  then show ?case by (simp add: search_loop_miss)
qed

text \<open>The binary search finds the least quality that reaches the target.\<close>

lemma search_least:
  assumes "\<forall>q. low s \<le> q \<and> q \<le> high s \<longrightarrow> probe_exit cfg env i t q = 0"
    and "\<forall>q q'. low s \<le> q \<and> q \<le> q' \<and> q' \<le> high s \<longrightarrow>
           probe_ssim cfg env i t q \<le> probe_ssim cfg env i t q'"
  shows "\<exists>b. snd (search_loop cfg env i t s) = Inr b \<and>
           (if \<exists>q. low s \<le> q \<and> q \<le> high s \<and> TARGET_SSIM cfg \<le> probe_ssim cfg env i t q
            then low s \<le> b \<and> b \<le> high s \<and> TARGET_SSIM cfg \<le> probe_ssim cfg env i t b
                 \<and> (\<forall>q. low s \<le> q \<and> q < b \<longrightarrow> probe_ssim cfg env i t q < TARGET_SSIM cfg)
            else b = best_quality s)"
  using assms
proof (induction s rule: search_induct [where cfg = cfg and env = env and i = i and t = t])
  case (exit s)
  then show ?case by (auto simp: search_loop_exit)
next
  case (fail s)
  then show ?case using mid_bounds [of s] by auto
next
  case (hit s)
  let ?s' = "s\<lparr>best_quality := mid s, high := mid s - 1\<rparr>"
  note mb = mid_bounds [OF hit.hyps(1)]
  have ok': "\<forall>q. low ?s' \<le> q \<and> q \<le> high ?s' \<longrightarrow> probe_exit cfg env i t q = 0"
    using hit.prems(1) mb by auto
  have mono': "\<forall>q q'. low ?s' \<le> q \<and> q \<le> q' \<and> q' \<le> high ?s' \<longrightarrow>
                 probe_ssim cfg env i t q \<le> probe_ssim cfg env i t q'"
    using hit.prems(2) mb by auto
  from hit.IH [OF ok' mono'] obtain b where
    b: "snd (search_loop cfg env i t ?s') = Inr b"
    and spec: "if \<exists>q. low ?s' \<le> q \<and> q \<le> high ?s' \<and> TARGET_SSIM cfg \<le> probe_ssim cfg env i t q
               then low ?s' \<le> b \<and> b \<le> high ?s' \<and> TARGET_SSIM cfg \<le> probe_ssim cfg env i t b
                    \<and> (\<forall>q. low ?s' \<le> q \<and> q < b \<longrightarrow> probe_ssim cfg env i t q < TARGET_SSIM cfg)
               else b = best_quality ?s'"
    by blast
  have res: "snd (search_loop cfg env i t s) = Inr b"
    using hit.hyps b by (simp add: search_loop_hit)
  have ex: "\<exists>q. low s \<le> q \<and> q \<le> high s \<and> TARGET_SSIM cfg \<le> probe_ssim cfg env i t q"
    using hit.hyps(3) mb by blast
  have "low s \<le> b \<and> b \<le> high s \<and> TARGET_SSIM cfg \<le> probe_ssim cfg env i t b
        \<and> (\<forall>q. low s \<le> q \<and> q < b \<longrightarrow> probe_ssim cfg env i t q < TARGET_SSIM cfg)"
  proof (cases "\<exists>q. low ?s' \<le> q \<and> q \<le> high ?s' \<and> TARGET_SSIM cfg \<le> probe_ssim cfg env i t q")
    case True
    with spec show ?thesis using mb by auto
  next
    case False
    with spec have "b = mid s" by simp
    with False hit.hyps(3) mb show ?thesis by (auto simp: not_le)
  qed
  with res ex show ?case by auto
next
  case (miss s)
  let ?s' = "s\<lparr>low := mid s + 1\<rparr>"
  note mb = mid_bounds [OF miss.hyps(1)]
  have ok': "\<forall>q. low ?s' \<le> q \<and> q \<le> high ?s' \<longrightarrow> probe_exit cfg env i t q = 0"
    using miss.prems(1) mb by auto
  have mono': "\<forall>q q'. low ?s' \<le> q \<and> q \<le> q' \<and> q' \<le> high ?s' \<longrightarrow>
                 probe_ssim cfg env i t q \<le> probe_ssim cfg env i t q'"
    using miss.prems(2) mb by auto
  from miss.IH [OF ok' mono'] obtain b where
    b: "snd (search_loop cfg env i t ?s') = Inr b"
    and spec: "if \<exists>q. low ?s' \<le> q \<and> q \<le> high ?s' \<and> TARGET_SSIM cfg \<le> probe_ssim cfg env i t q
               then low ?s' \<le> b \<and> b \<le> high ?s' \<and> TARGET_SSIM cfg \<le> probe_ssim cfg env i t b
                    \<and> (\<forall>q. low ?s' \<le> q \<and> q < b \<longrightarrow> probe_ssim cfg env i t q < TARGET_SSIM cfg)
               else b = best_quality ?s'"
    by blast
  have res: "snd (search_loop cfg env i t s) = Inr b"
    using miss.hyps b by (simp add: search_loop_miss)
  have below: "probe_ssim cfg env i t q < TARGET_SSIM cfg" if "low s \<le> q" "q \<le> mid s" for q
  proof -
    have "probe_ssim cfg env i t q \<le> probe_ssim cfg env i t (mid s)"
      using miss.prems(2) that mb by blast
    with miss.hyps(3) show ?thesis by simp
  qed
  show ?case
  proof (cases "\<exists>q. low s \<le> q \<and> q \<le> high s \<and> TARGET_SSIM cfg \<le> probe_ssim cfg env i t q")
    case True
    then obtain q where q: "low s \<le> q" "q \<le> high s" "TARGET_SSIM cfg \<le> probe_ssim cfg env i t q"
      by blast
    with below [of q] have "mid s + 1 \<le> q" by (cases "q \<le> mid s") auto
    with q have "\<exists>q. low ?s' \<le> q \<and> q \<le> high ?s' \<and> TARGET_SSIM cfg \<le> probe_ssim cfg env i t q"
      by auto
    with spec have sp: "mid s + 1 \<le> b" "b \<le> high s" "TARGET_SSIM cfg \<le> probe_ssim cfg env i t b"
      "\<forall>q. mid s + 1 \<le> q \<and> q < b \<longrightarrow> probe_ssim cfg env i t q < TARGET_SSIM cfg"
      by simp_all
    have "\<forall>q. low s \<le> q \<and> q < b \<longrightarrow> probe_ssim cfg env i t q < TARGET_SSIM cfg"
    proof (intro allI impI)
      fix q assume "low s \<le> q \<and> q < b"
      then show "probe_ssim cfg env i t q < TARGET_SSIM cfg"
        using below [of q] sp(4) by (cases "q \<le> mid s") auto
    qed
    with sp mb True res show ?thesis by auto
  next
    case False
    then have "\<not> (\<exists>q. low ?s' \<le> q \<and> q \<le> high ?s' \<and> TARGET_SSIM cfg \<le> probe_ssim cfg env i t q)"
      using mb by auto
    with spec have "b = best_quality s" by simp
    with False res show ?thesis by auto
  qed
qed

lemma best_history_exit [simp]: "best_history ([], Inr b) = [b]"
  by (simp add: best_history_def)

lemma best_history_fail [simp]:
  "best_history ([p], Inl e) = [best_quality (probe_state p)]"
  by (simp add: best_history_def)

lemma best_history_step [simp]:
  "best_history (apfst ((#) p) x) = best_quality (probe_state p) # best_history x"
  by (simp add: best_history_def)

text \<open>The best quality never rises, as long as it starts no lower than \<open>high\<close>.\<close>

lemma search_history_sorted:
  "high s \<le> best_quality s \<Longrightarrow>
     sorted_wrt (\<lambda>a b. b \<le> a) (best_history (search_loop cfg env i t s))
     \<and> (\<forall>x \<in> set (best_history (search_loop cfg env i t s)). x \<le> best_quality s)"
proof (induction s rule: search_induct [where cfg = cfg and env = env and i = i and t = t])
  case (exit s)
  then show ?case by (simp add: search_loop_exit)
next
  case (fail s)
  then show ?case by (simp add: search_loop_fail probe_at_def)
next
  case (hit s)
  note mb = mid_bounds [OF hit.hyps(1)]
  have "sorted_wrt (\<lambda>a b. b \<le> a)
          (best_history (search_loop cfg env i t (s\<lparr>best_quality := mid s, high := mid s - 1\<rparr>)))
        \<and> (\<forall>x \<in> set (best_history
              (search_loop cfg env i t (s\<lparr>best_quality := mid s, high := mid s - 1\<rparr>))).
             x \<le> mid s)"
    using hit.IH by simp
  then show ?case
    using hit.hyps hit.prems mb by (auto simp: search_loop_hit probe_at_def)
next
  case (miss s)
  have "sorted_wrt (\<lambda>a b. b \<le> a)
          (best_history (search_loop cfg env i t (s\<lparr>low := mid s + 1\<rparr>)))
        \<and> (\<forall>x \<in> set (best_history (search_loop cfg env i t (s\<lparr>low := mid s + 1\<rparr>))).
             x \<le> best_quality s)"
    using miss.IH miss.prems by simp
  then show ?case
    using miss.hyps by (auto simp: search_loop_miss probe_at_def)
qed

text \<open>
  A tested quality is below the best one so far, unless both are still the quality \<open>H\<close>
  the search started from.
\<close>

lemma search_probe_below_best:
  assumes "high s < best_quality s \<or> (high s = H \<and> best_quality s = H)"
    and "p \<in> set (fst (search_loop cfg env i t s))"
  shows "probe_quality p < best_quality (probe_state p)
         \<or> (probe_quality p = H \<and> best_quality (probe_state p) = H)"
  using assms
proof (induction s rule: search_induct [where cfg = cfg and env = env and i = i and t = t])
  case (exit s)
  then show ?case by (simp add: search_loop_exit)
next
  case (fail s)
  then show ?case
    using mid_bounds [of s] by (auto simp: search_loop_fail probe_at_def)
next
  case (hit s)
  note mb = mid_bounds [OF hit.hyps(1)]
  from hit.prems(2) hit.hyps
  have "p = probe_at cfg i t s
        \<or> p \<in> set (fst (search_loop cfg env i t (s\<lparr>best_quality := mid s, high := mid s - 1\<rparr>)))"
    by (simp add: search_loop_hit)
  then show ?case
  proof
    assume "p = probe_at cfg i t s"
    then show ?thesis using mb hit.prems(1) by (auto simp: probe_at_def)
  next
    assume "p \<in> set (fst (search_loop cfg env i t (s\<lparr>best_quality := mid s, high := mid s - 1\<rparr>)))"
    then show ?thesis by (intro hit.IH) simp_all
  qed
next
  case (miss s)
  note mb = mid_bounds [OF miss.hyps(1)]
  from miss.prems(2) miss.hyps
  have "p = probe_at cfg i t s
        \<or> p \<in> set (fst (search_loop cfg env i t (s\<lparr>low := mid s + 1\<rparr>)))"
    by (simp add: search_loop_miss)
  then show ?case
  proof
    assume "p = probe_at cfg i t s"
    then show ?thesis using mb miss.prems(1) by (auto simp: probe_at_def)
  next
    assume "p \<in> set (fst (search_loop cfg env i t (s\<lparr>low := mid s + 1\<rparr>)))"
    then show ?thesis using miss.prems(1) by (intro miss.IH) simp_all
  qed
qed

text \<open>The log is empty only when the interval is, and its first entry holds the start.\<close>

lemma search_log_first:
  "low s \<le> high s \<Longrightarrow>
     fst (search_loop cfg env i t s) \<noteq> []
     \<and> probe_state (hd (fst (search_loop cfg env i t s))) = s"
proof (cases "probe_exit cfg env i t (mid s) = 0")
  case False
  assume "low s \<le> high s"
  with False show ?thesis by (simp add: search_loop_fail probe_at_def)
next
  case True
  assume le: "low s \<le> high s"
  show ?thesis
  proof (cases "TARGET_SSIM cfg \<le> probe_ssim cfg env i t (mid s)")
    case True
    with le \<open>probe_exit cfg env i t (mid s) = 0\<close> show ?thesis
      by (simp add: search_loop_hit probe_at_def)
  next
    case False
    with le \<open>probe_exit cfg env i t (mid s) = 0\<close> show ?thesis
      by (simp add: search_loop_miss probe_at_def)
  qed
qed

subsection \<open>One image\<close>

lemma process_image_iterations:
  "iterations (process_image cfg env f) = fst (quality_search cfg env (input_path f) temp_path)"
  by (simp add: process_image_def Let_def split: sum.splits)

lemma process_image_failed_search:
  "snd (quality_search cfg env (input_path f) temp_path) = Inl e \<Longrightarrow>
     final_invocation (process_image cfg env f) = None \<and> result (process_image cfg env f) = Inl e"
  by (simp add: process_image_def Let_def)

lemma process_image_final:
  "snd (quality_search cfg env (input_path f) temp_path) = Inr b \<Longrightarrow>
     final_invocation (process_image cfg env f)
       = Some (final_cmd cfg b (input_path f) (output_path f))"
  by (simp add: process_image_def Let_def split: sum.splits)

lemma process_image_result:
  "snd (quality_search cfg env (input_path f) temp_path) = Inr b \<Longrightarrow>
     result (process_image cfg env f)
       = (if final_status cfg env f b = 0 then Inr b
          else Inl (CalledProcessError (final_status cfg env f b)
                      (final_cmd cfg b (input_path f) (output_path f))))"
  by (simp add: process_image_def Let_def run_checked_def final_status_def case_prod_beta)

section \<open>Running the example worlds\<close>

lemma funpow_max_same: "(max w ^^ n) w = (w :: 8 word)"
  by (induction n) simp_all

lemma funpow_min_same: "(min w ^^ n) w = (w :: 8 word)"
  by (induction n) simp_all

lemma flat_image_range:
  "arr_max (img_arr (flat_image w)) = Inr w" "arr_min (img_arr (flat_image w)) = Inr w"
  by (simp_all add: flat_image_def arr_max_def arr_min_def funpow_max_same funpow_min_same)

lemma toy_image_open:
  "image_open_L (toy_env status score files) (toy_files cmd) path
     = Inr (flat_image (word_of_int (if cmd \<noteq> [] \<and> last cmd = Str path then quality_arg cmd else 0)))"
  by (simp add: image_open_L_def toy_files_def toy_env_def)

lemma toy_calculate_ssim:
  "calculate_ssim (toy_env status score files) (toy_files (search_cmd cfg q src tmp)) src tmp
     = (Float (score (uint (word_of_int q :: 8 word))), [])"
proof -
  have sz: "img_size (flat_image v) = img_size (flat_image w)" for v w
    by (simp add: flat_image_def)
  have q: "quality_arg (search_cmd cfg q src tmp) = q"
    by (simp add: quality_arg_def search_cmd_def)
  have l: "search_cmd cfg q src tmp \<noteq> [] \<and> last (search_cmd cfg q src tmp) = Str tmp"
    by (simp add: search_cmd_def)
  have lib: "ssim (toy_env status score files) a (flat_image w) r = Inr (Float (score (uint w)))"
    for a w r
    by (simp add: toy_env_def flat_image_def)
  show ?thesis
    unfolding calculate_ssim_def ssim_try_def toy_image_open
    using l by (simp add: sz flat_image_range lib q)
qed

lemma toy_probe_exit:
  "probe_exit cfg (toy_env status score files) src tmp q = status (search_cmd cfg q src tmp)"
  by (simp add: probe_exit_def toy_env_def)

lemma toy_files_after:
  "snd (subprocess_run (toy_env status score files) cmd) = toy_files cmd"
  by (simp add: toy_env_def)

lemma toy_probe_ssim:
  "0 \<le> q \<Longrightarrow> q < 256 \<Longrightarrow> probe_ssim cfg (toy_env status score files) src temp_path q = score q"
  unfolding probe_ssim_def toy_files_after toy_calculate_ssim
  by (simp add: uint_word_of_int take_bit_int_eq_self)

lemmas toy_run = quality_search_def source_config_def search_loop_hit search_loop_miss
  search_loop_exit search_loop_fail mid_def toy_probe_exit toy_probe_ssim

lemma le_two_power_ceiling_log:
  fixes n :: int
  assumes "1 \<le> n"
  shows "n \<le> 2 ^ nat \<lceil>log 2 (real_of_int n)\<rceil>"
proof -
  let ?c = "\<lceil>log 2 (real_of_int n)\<rceil>"
  have pos: "0 < real_of_int n" using assms by simp
  have "0 \<le> log 2 (real_of_int n)" using assms by simp
  then have "0 \<le> real_of_int ?c"
    using le_of_int_ceiling [of "log 2 (real_of_int n)"] by linarith
  then have c0: "0 \<le> ?c" by simp
  have "real_of_int n = 2 powr (log 2 (real_of_int n))" using pos by simp
  also have "\<dots> \<le> 2 powr (real_of_int ?c)" by (intro powr_mono) simp_all
  also have "\<dots> = 2 powr (real (nat ?c))" using c0 by simp
  also have "\<dots> = 2 ^ nat ?c" by (simp add: powr_realpow)
  finally have "real_of_int n \<le> real_of_int (2 ^ nat ?c)" by simp
  then show ?thesis by (simp only: of_int_le_iff)
qed

section \<open>The claims about the search\<close>

text \<open>
  Claim C10. At every pass of the search loop the tested quality \<open>q\<close> satisfies
  \<open>low \<le> q \<le> high\<close> with \<open>MIN_QUALITY \<le> low\<close> and \<open>high \<le> MAX_QUALITY\<close>, and the command
  run is the search command at \<open>q\<close>; so every quality passed to the encoder during the
  search lies between floor and ceiling, and so does the quality the search returns when
  the floor is not above the ceiling (with the values of the source, between 40 and 95).
\<close>

theorem search_qualities_in_range:
  "(\<forall>p \<in> set (fst (quality_search cfg env src tmp)).
      MIN_QUALITY cfg \<le> low (probe_state p) \<and> low (probe_state p) \<le> probe_quality p
      \<and> probe_quality p \<le> high (probe_state p) \<and> high (probe_state p) \<le> MAX_QUALITY cfg
      \<and> probe_cmd p = search_cmd cfg (probe_quality p) src tmp)
   \<and> (MIN_QUALITY cfg \<le> MAX_QUALITY cfg \<longrightarrow>
        (\<forall>b. snd (quality_search cfg env src tmp) = Inr b \<longrightarrow>
           MIN_QUALITY cfg \<le> b \<and> b \<le> MAX_QUALITY cfg))"
proof (intro conjI ballI impI allI)
  fix p
  assume "p \<in> set (fst (quality_search cfg env src tmp))"
  then have "p \<in> set (fst (search_loop cfg env src tmp
      \<lparr>low = MIN_QUALITY cfg, high = MAX_QUALITY cfg, best_quality = MAX_QUALITY cfg\<rparr>))"
    by (simp add: quality_search_def)
  from search_log_probe [OF this]
  show "MIN_QUALITY cfg \<le> low (probe_state p)" "low (probe_state p) \<le> probe_quality p"
    "probe_quality p \<le> high (probe_state p)" "high (probe_state p) \<le> MAX_QUALITY cfg"
    "probe_cmd p = search_cmd cfg (probe_quality p) src tmp"
    by simp_all
next
  fix b
  assume le: "MIN_QUALITY cfg \<le> MAX_QUALITY cfg"
    and "snd (quality_search cfg env src tmp) = Inr b"
  then have "snd (search_loop cfg env src tmp
      \<lparr>low = MIN_QUALITY cfg, high = MAX_QUALITY cfg, best_quality = MAX_QUALITY cfg\<rparr>) = Inr b"
    by (simp add: quality_search_def)
  from search_result_range [OF this] le
  show "MIN_QUALITY cfg \<le> b" "b \<le> MAX_QUALITY cfg" by auto
qed

theorem search_qualities_in_range_witness:
  "probe_at source_config (input_path ''photo.png'') temp_path \<lparr>low = 47, high = 52, best_quality = 53\<rparr>
     \<in> set (fst (quality_search source_config crossing_51 (input_path ''photo.png'') temp_path))
   \<and> MIN_QUALITY source_config = 40 \<and> MAX_QUALITY source_config = 95
   \<and> (40::int) \<le> 47 \<and> (47::int) \<le> 49 \<and> (49::int) \<le> 52 \<and> (52::int) \<le> 95
   \<and> snd (quality_search source_config crossing_51 (input_path ''photo.png'') temp_path) = Inr 51
   \<and> (40::int) \<le> 51 \<and> (51::int) \<le> 95"
proof -
  have run: "quality_search source_config crossing_51 (input_path ''photo.png'') temp_path
        = (map (probe_at source_config (input_path ''photo.png'') temp_path)
            [\<lparr>low = 40, high = 95, best_quality = 95\<rparr>, \<lparr>low = 40, high = 66, best_quality = 67\<rparr>,
             \<lparr>low = 40, high = 52, best_quality = 53\<rparr>, \<lparr>low = 47, high = 52, best_quality = 53\<rparr>,
             \<lparr>low = 50, high = 52, best_quality = 53\<rparr>, \<lparr>low = 50, high = 50, best_quality = 51\<rparr>],
           Inr 51)"
    by (simp add: crossing_51_def toy_run)
  have mem: "probe_at source_config (input_path ''photo.png'') temp_path
      \<lparr>low = 47, high = 52, best_quality = 53\<rparr>
     \<in> set (fst (quality_search source_config crossing_51 (input_path ''photo.png'') temp_path))"
    by (simp add: run)
  have res: "snd (quality_search source_config crossing_51 (input_path ''photo.png'') temp_path) = Inr 51"
    by (simp add: run)
  have le: "MIN_QUALITY source_config \<le> MAX_QUALITY source_config"
    by (simp add: source_config_def)
  from search_qualities_in_range [of source_config crossing_51 "input_path ''photo.png''" temp_path]
  have "\<forall>p \<in> set (fst (quality_search source_config crossing_51 (input_path ''photo.png'') temp_path)).
      MIN_QUALITY source_config \<le> low (probe_state p) \<and> low (probe_state p) \<le> probe_quality p
      \<and> probe_quality p \<le> high (probe_state p) \<and> high (probe_state p) \<le> MAX_QUALITY source_config"
    and "MIN_QUALITY source_config \<le> 51 \<and> 51 \<le> MAX_QUALITY source_config"
    using le res by auto
  with mem res show ?thesis
    by (auto simp: source_config_def probe_at_def mid_def)
qed

text \<open>
  Claim C4. For any floor not above the ceiling the search loop ends (\<open>search_loop\<close> is a
  total function) after at most \<open>\<lceil>log\<^sub>2 (ceiling - floor + 1)\<rceil> + 1\<close> encoder runs, and when none
  of them fails they are followed by exactly one final encoder run.
\<close>

theorem search_invocation_bound:
  assumes "MIN_QUALITY cfg \<le> MAX_QUALITY cfg"
  shows "length (iterations (process_image cfg env f))
           \<le> nat \<lceil>log 2 (real_of_int (MAX_QUALITY cfg - MIN_QUALITY cfg + 1))\<rceil> + 1
         \<and> ((\<forall>p \<in> set (iterations (process_image cfg env f)).
                encoder_status cfg env f (probe_quality p) = 0) \<longrightarrow>
              (\<exists>b. invocations (process_image cfg env f)
                      = map probe_cmd (iterations (process_image cfg env f))
                        @ [final_cmd cfg b (input_path f) (output_path f)]))"
proof
  let ?n = "MAX_QUALITY cfg - MIN_QUALITY cfg + 1"
  let ?k = "nat \<lceil>log 2 (real_of_int ?n)\<rceil>"
  have "?n \<le> 2 ^ ?k" using assms by (intro le_two_power_ceiling_log) simp
  also have "\<dots> < 2 ^ (?k + 1)" by simp
  finally have "length (fst (search_loop cfg env (input_path f) temp_path
      \<lparr>low = MIN_QUALITY cfg, high = MAX_QUALITY cfg, best_quality = MAX_QUALITY cfg\<rparr>)) \<le> ?k + 1"
    by (intro search_log_length) simp
  then show "length (iterations (process_image cfg env f)) \<le> ?k + 1"
    by (simp add: process_image_iterations quality_search_def)
next
  show "(\<forall>p \<in> set (iterations (process_image cfg env f)).
            encoder_status cfg env f (probe_quality p) = 0) \<longrightarrow>
         (\<exists>b. invocations (process_image cfg env f)
                 = map probe_cmd (iterations (process_image cfg env f))
                   @ [final_cmd cfg b (input_path f) (output_path f)])"
  proof
    assume "\<forall>p \<in> set (iterations (process_image cfg env f)).
              encoder_status cfg env f (probe_quality p) = 0"
    then have "\<forall>p \<in> set (fst (search_loop cfg env (input_path f) temp_path
        \<lparr>low = MIN_QUALITY cfg, high = MAX_QUALITY cfg, best_quality = MAX_QUALITY cfg\<rparr>)).
          probe_exit cfg env (input_path f) temp_path (probe_quality p) = 0"
      by (simp add: process_image_iterations quality_search_def encoder_status_def)
    from search_succeeds [OF this] obtain b where
      "snd (quality_search cfg env (input_path f) temp_path) = Inr b"
      by (auto simp: quality_search_def)
    from process_image_final [OF this]
    have "invocations (process_image cfg env f)
            = map probe_cmd (iterations (process_image cfg env f))
              @ [final_cmd cfg b (input_path f) (output_path f)]"
      by (simp add: invocations_def)
    then show "\<exists>b. invocations (process_image cfg env f)
                 = map probe_cmd (iterations (process_image cfg env f))
                   @ [final_cmd cfg b (input_path f) (output_path f)]" ..
  qed
qed


theorem search_invocation_bound_witness:
  "MIN_QUALITY source_config \<le> MAX_QUALITY source_config
   \<and> length (iterations (process_image source_config crossing_51 ''photo.png''))
       \<le> nat \<lceil>log 2 (real_of_int (95 - 40 + 1))\<rceil> + 1
   \<and> map probe_quality (iterations (process_image source_config crossing_51 ''photo.png''))
       = [67, 53, 46, 49, 51, 50]
   \<and> map (\<lambda>p. encoder_status source_config crossing_51 ''photo.png'' (probe_quality p))
         (iterations (process_image source_config crossing_51 ''photo.png''))
       = [0, 0, 0, 0, 0, 0]
   \<and> invocations (process_image source_config crossing_51 ''photo.png'')
       = map probe_cmd (iterations (process_image source_config crossing_51 ''photo.png''))
         @ [final_cmd source_config 51 (input_path ''photo.png'') (output_path ''photo.png'')]"
proof -
  have le: "MIN_QUALITY source_config \<le> MAX_QUALITY source_config"
    by (simp add: source_config_def)
  have ok: "\<forall>p \<in> set (iterations (process_image source_config crossing_51 ''photo.png'')).
         encoder_status source_config crossing_51 ''photo.png'' (probe_quality p) = 0"
    by (simp add: encoder_status_def crossing_51_def toy_probe_exit)
  have run: "quality_search source_config crossing_51 (input_path ''photo.png'') temp_path
        = (map (probe_at source_config (input_path ''photo.png'') temp_path)
            [\<lparr>low = 40, high = 95, best_quality = 95\<rparr>, \<lparr>low = 40, high = 66, best_quality = 67\<rparr>,
             \<lparr>low = 40, high = 52, best_quality = 53\<rparr>, \<lparr>low = 47, high = 52, best_quality = 53\<rparr>,
             \<lparr>low = 50, high = 52, best_quality = 53\<rparr>, \<lparr>low = 50, high = 50, best_quality = 51\<rparr>],
           Inr 51)"
    by (simp add: crossing_51_def toy_run)
  have qs: "map probe_quality (iterations (process_image source_config crossing_51 ''photo.png''))
       = [67, 53, 46, 49, 51, 50]"
    by (simp add: process_image_iterations run probe_at_def mid_def)
  have st: "map (\<lambda>p. encoder_status source_config crossing_51 ''photo.png'' (probe_quality p))
         (iterations (process_image source_config crossing_51 ''photo.png''))
       = [0, 0, 0, 0, 0, 0]"
    unfolding process_image_iterations run
    by (simp add: encoder_status_def crossing_51_def toy_probe_exit)
  have fin: "final_invocation (process_image source_config crossing_51 ''photo.png'')
       = Some (final_cmd source_config 51 (input_path ''photo.png'') (output_path ''photo.png''))"
    by (rule process_image_final) (simp add: run)
  from search_invocation_bound [OF le, of crossing_51 "''photo.png''"] ok
  have "length (iterations (process_image source_config crossing_51 ''photo.png''))
       \<le> nat \<lceil>log 2 (real_of_int (95 - 40 + 1))\<rceil> + 1"
    and "\<exists>b. invocations (process_image source_config crossing_51 ''photo.png'')
             = map probe_cmd (iterations (process_image source_config crossing_51 ''photo.png''))
               @ [final_cmd source_config b (input_path ''photo.png'') (output_path ''photo.png'')]"
    by (simp_all add: source_config_def)
  then obtain b where inv: "invocations (process_image source_config crossing_51 ''photo.png'')
             = map probe_cmd (iterations (process_image source_config crossing_51 ''photo.png''))
               @ [final_cmd source_config b (input_path ''photo.png'') (output_path ''photo.png'')]"
    and bound: "length (iterations (process_image source_config crossing_51 ''photo.png''))
       \<le> nat \<lceil>log 2 (real_of_int (95 - 40 + 1))\<rceil> + 1"
    by blast
  from inv fin have "b = 51" by (simp add: invocations_def final_cmd_def)
  with inv bound le qs st show ?thesis by simp
qed

text \<open>
  Claim C1, as amended. For every image whose search-phase encoder runs succeed and every
  similarity that is monotone non-decreasing in the quality over the search range, the
  binary search returns the least quality of the range whose similarity reaches the target
  when there is one, and the ceiling otherwise. So when the similarity is below the target
  at a quality \<open>q1\<close> and reaches it at \<open>q2\<close>, the returned quality lies in \<open>q1 + 1 .. q2\<close>; it
  is \<open>q2\<close> when the quality \<open>q2 - 1\<close> is still below the target. With floor 40, ceiling 95,
  target 0.98, similarity 0.97 at 50 and 0.99 at 60, the result is the least quality from
  51 to 60 that reaches the target, and 60 only if 59 does not.
\<close>

theorem search_returns_least_quality:
  assumes "encoder_succeeds cfg env f" and "similarity_monotone cfg env f"
  shows "\<exists>b. snd (quality_search cfg env (input_path f) temp_path) = Inr b
           \<and> (if \<exists>q \<in> {MIN_QUALITY cfg..MAX_QUALITY cfg}. TARGET_SSIM cfg \<le> similarity cfg env f q
               then b \<in> {MIN_QUALITY cfg..MAX_QUALITY cfg}
                    \<and> TARGET_SSIM cfg \<le> similarity cfg env f b
                    \<and> (\<forall>q \<in> {MIN_QUALITY cfg..<b}. similarity cfg env f q < TARGET_SSIM cfg)
               else b = MAX_QUALITY cfg)
           \<and> (\<forall>q1 \<in> {MIN_QUALITY cfg..MAX_QUALITY cfg}. \<forall>q2 \<in> {MIN_QUALITY cfg..MAX_QUALITY cfg}.
                 similarity cfg env f q1 < TARGET_SSIM cfg \<and> TARGET_SSIM cfg \<le> similarity cfg env f q2
                 \<longrightarrow> q1 < b \<and> b \<le> q2
                     \<and> (similarity cfg env f (q2 - 1) < TARGET_SSIM cfg \<longrightarrow> b = q2))"
proof -
  let ?s = "\<lparr>low = MIN_QUALITY cfg, high = MAX_QUALITY cfg, best_quality = MAX_QUALITY cfg\<rparr>"
  let ?sim = "probe_ssim cfg env (input_path f) temp_path"
  have ok: "\<forall>q. low ?s \<le> q \<and> q \<le> high ?s \<longrightarrow> probe_exit cfg env (input_path f) temp_path q = 0"
    using assms(1) by (simp add: encoder_succeeds_def encoder_status_def)
  have mono: "\<forall>q q'. low ?s \<le> q \<and> q \<le> q' \<and> q' \<le> high ?s \<longrightarrow> ?sim q \<le> ?sim q'"
    using assms(2) by (simp add: similarity_monotone_def similarity_def)
  from search_least [OF ok mono]
  have "\<exists>b. snd (search_loop cfg env (input_path f) temp_path ?s) = Inr b
          \<and> (if \<exists>q. MIN_QUALITY cfg \<le> q \<and> q \<le> MAX_QUALITY cfg \<and> TARGET_SSIM cfg \<le> ?sim q
               then MIN_QUALITY cfg \<le> b \<and> b \<le> MAX_QUALITY cfg \<and> TARGET_SSIM cfg \<le> ?sim b
                    \<and> (\<forall>q. MIN_QUALITY cfg \<le> q \<and> q < b \<longrightarrow> ?sim q < TARGET_SSIM cfg)
               else b = MAX_QUALITY cfg)"
    by (simp cong: if_cong)
  then obtain b where
    res: "snd (search_loop cfg env (input_path f) temp_path ?s) = Inr b"
    and spec: "if \<exists>q. MIN_QUALITY cfg \<le> q \<and> q \<le> MAX_QUALITY cfg \<and> TARGET_SSIM cfg \<le> ?sim q
               then MIN_QUALITY cfg \<le> b \<and> b \<le> MAX_QUALITY cfg \<and> TARGET_SSIM cfg \<le> ?sim b
                    \<and> (\<forall>q. MIN_QUALITY cfg \<le> q \<and> q < b \<longrightarrow> ?sim q < TARGET_SSIM cfg)
               else b = MAX_QUALITY cfg"
    by blast
  have least: "if \<exists>q \<in> {MIN_QUALITY cfg..MAX_QUALITY cfg}. TARGET_SSIM cfg \<le> similarity cfg env f q
               then b \<in> {MIN_QUALITY cfg..MAX_QUALITY cfg}
                    \<and> TARGET_SSIM cfg \<le> similarity cfg env f b
                    \<and> (\<forall>q \<in> {MIN_QUALITY cfg..<b}. similarity cfg env f q < TARGET_SSIM cfg)
               else b = MAX_QUALITY cfg"
  proof (cases "\<exists>q. MIN_QUALITY cfg \<le> q \<and> q \<le> MAX_QUALITY cfg \<and> TARGET_SSIM cfg \<le> ?sim q")
    case True
    with spec show ?thesis by (auto simp: similarity_def)
  next
    case False
    with spec show ?thesis by (auto simp: similarity_def)
  qed
  have between: "q1 < b \<and> b \<le> q2 \<and> (similarity cfg env f (q2 - 1) < TARGET_SSIM cfg \<longrightarrow> b = q2)"
    if q1: "q1 \<in> {MIN_QUALITY cfg..MAX_QUALITY cfg}" and q2: "q2 \<in> {MIN_QUALITY cfg..MAX_QUALITY cfg}"
      and lo: "similarity cfg env f q1 < TARGET_SSIM cfg"
      and hi: "TARGET_SSIM cfg \<le> similarity cfg env f q2" for q1 q2
  proof -
    from q2 hi least have b: "b \<in> {MIN_QUALITY cfg..MAX_QUALITY cfg}"
      "TARGET_SSIM cfg \<le> similarity cfg env f b"
      "\<forall>q \<in> {MIN_QUALITY cfg..<b}. similarity cfg env f q < TARGET_SSIM cfg"
      by (auto split: if_splits)
    have "q1 < b"
    proof (rule ccontr)
      assume "\<not> q1 < b"
      with b(1) q1 assms(2) have "similarity cfg env f b \<le> similarity cfg env f q1"
        by (simp add: similarity_monotone_def)
      with lo b(2) show False by simp
    qed
    moreover have "b \<le> q2"
    proof (rule ccontr)
      assume "\<not> b \<le> q2"
      with q2 b(3) have "similarity cfg env f q2 < TARGET_SSIM cfg" by simp
      with hi show False by simp
    qed
    moreover have "b = q2" if "similarity cfg env f (q2 - 1) < TARGET_SSIM cfg"
    proof (rule ccontr)
      assume "b \<noteq> q2"
      with \<open>b \<le> q2\<close> have "b \<le> q2 - 1" by simp
      with b(1) q2 assms(2) have "similarity cfg env f b \<le> similarity cfg env f (q2 - 1)"
        by (simp add: similarity_monotone_def)
      with that b(2) show False by simp
    qed
    ultimately show ?thesis by blast
  qed
  from res least between show ?thesis
    unfolding quality_search_def by (intro exI [of _ b]) blast
qed

lemma toy_similarity:
  "0 \<le> q \<Longrightarrow> q < 256 \<Longrightarrow> similarity cfg (toy_env status score files) f q = score q"
  by (simp add: similarity_def toy_probe_ssim)

lemma toy_encoder_status:
  "encoder_status cfg (toy_env status score files) f q
     = status (search_cmd cfg q (input_path f) temp_path)"
  by (simp add: encoder_status_def toy_probe_exit)

lemma toy_similarity_monotone:
  assumes "0 \<le> MIN_QUALITY cfg" and "MAX_QUALITY cfg < 256"
    and "\<And>q q'. q \<le> q' \<Longrightarrow> score q \<le> score q'"
  shows "similarity_monotone cfg (toy_env status score files) f"
  using assms by (simp add: similarity_monotone_def toy_similarity)

theorem search_returns_least_quality_witness:
  "encoder_succeeds source_config crossing_60 ''photo.png''
   \<and> similarity_monotone source_config crossing_60 ''photo.png''
   \<and> similarity source_config crossing_60 ''photo.png'' 50 < TARGET_SSIM source_config
   \<and> similarity source_config crossing_60 ''photo.png'' 59 < TARGET_SSIM source_config
   \<and> TARGET_SSIM source_config \<le> similarity source_config crossing_60 ''photo.png'' 60
   \<and> snd (quality_search source_config crossing_60 (input_path ''photo.png'') temp_path) = Inr 60"
proof -
  have ok: "encoder_succeeds source_config crossing_60 ''photo.png''"
    by (simp add: encoder_succeeds_def crossing_60_def toy_encoder_status)
  have mono: "similarity_monotone source_config crossing_60 ''photo.png''"
    unfolding crossing_60_def
    by (rule toy_similarity_monotone) (simp_all add: source_config_def)
  have s50: "similarity source_config crossing_60 ''photo.png'' 50 < TARGET_SSIM source_config"
    and s59: "similarity source_config crossing_60 ''photo.png'' 59 < TARGET_SSIM source_config"
    and s60: "TARGET_SSIM source_config \<le> similarity source_config crossing_60 ''photo.png'' 60"
    by (simp_all add: crossing_60_def toy_similarity source_config_def)
  from search_returns_least_quality [OF ok mono] obtain b where
    res: "snd (quality_search source_config crossing_60 (input_path ''photo.png'') temp_path) = Inr b"
    and between: "\<forall>q1 \<in> {MIN_QUALITY source_config..MAX_QUALITY source_config}.
        \<forall>q2 \<in> {MIN_QUALITY source_config..MAX_QUALITY source_config}.
          similarity source_config crossing_60 ''photo.png'' q1 < TARGET_SSIM source_config
          \<and> TARGET_SSIM source_config \<le> similarity source_config crossing_60 ''photo.png'' q2
          \<longrightarrow> q1 < b \<and> b \<le> q2
              \<and> (similarity source_config crossing_60 ''photo.png'' (q2 - 1) < TARGET_SSIM source_config
                   \<longrightarrow> b = q2)"
    by blast
  have "50 \<in> {MIN_QUALITY source_config..MAX_QUALITY source_config}"
    and "60 \<in> {MIN_QUALITY source_config..MAX_QUALITY source_config}"
    by (simp_all add: source_config_def)
  with between s50 s60 s59 have "b = 60" by fastforce
  with res ok mono s50 s59 s60 show ?thesis by simp
qed

theorem scenario_returns_51:
  "encoder_succeeds source_config crossing_51 ''photo.png''
   \<and> similarity_monotone source_config crossing_51 ''photo.png''
   \<and> similarity source_config crossing_51 ''photo.png'' 50 = 97 / 100
   \<and> similarity source_config crossing_51 ''photo.png'' 60 = 99 / 100
   \<and> TARGET_SSIM source_config = 98 / 100
   \<and> MIN_QUALITY source_config = 40 \<and> MAX_QUALITY source_config = 95
   \<and> snd (quality_search source_config crossing_51 (input_path ''photo.png'') temp_path) = Inr 51
   \<and> final_invocation (process_image source_config crossing_51 ''photo.png'')
       = Some (final_cmd source_config 51 (input_path ''photo.png'') (output_path ''photo.png''))"
proof -
  have ok: "encoder_succeeds source_config crossing_51 ''photo.png''"
    by (simp add: encoder_succeeds_def crossing_51_def toy_encoder_status)
  have mono: "similarity_monotone source_config crossing_51 ''photo.png''"
    unfolding crossing_51_def
    by (rule toy_similarity_monotone) (simp_all add: source_config_def)
  have sims: "similarity source_config crossing_51 ''photo.png'' 50 = 97 / 100"
    "similarity source_config crossing_51 ''photo.png'' 60 = 99 / 100"
    by (simp_all add: crossing_51_def toy_similarity)
  have res: "snd (quality_search source_config crossing_51 (input_path ''photo.png'') temp_path) = Inr 51"
    by (simp add: crossing_51_def toy_run)
  note fin = process_image_final [OF res]
  from ok mono sims res fin show ?thesis by (simp add: source_config_def)
qed

text \<open>
  Claim C5. If no tested quality yields a similarity that reaches the target (and no
  encoder run of the search fails), the search returns the ceiling as best quality and
  raises no error: the final encoding is run at the ceiling quality, and when it succeeds
  the image is completed at that quality.
\<close>

theorem no_quality_meets_target:
  assumes "\<forall>p \<in> set (iterations (process_image cfg env f)).
             encoder_status cfg env f (probe_quality p) = 0
             \<and> similarity cfg env f (probe_quality p) < TARGET_SSIM cfg"
  shows "snd (quality_search cfg env (input_path f) temp_path) = Inr (MAX_QUALITY cfg)
         \<and> final_invocation (process_image cfg env f)
             = Some (final_cmd cfg (MAX_QUALITY cfg) (input_path f) (output_path f))
         \<and> (final_status cfg env f (MAX_QUALITY cfg) = 0 \<longrightarrow>
              result (process_image cfg env f) = Inr (MAX_QUALITY cfg))"
proof -
  let ?s = "\<lparr>low = MIN_QUALITY cfg, high = MAX_QUALITY cfg, best_quality = MAX_QUALITY cfg\<rparr>"
  from assms
  have "\<forall>p \<in> set (fst (search_loop cfg env (input_path f) temp_path ?s)).
           probe_exit cfg env (input_path f) temp_path (probe_quality p) = 0
           \<and> probe_ssim cfg env (input_path f) temp_path (probe_quality p) < TARGET_SSIM cfg"
    by (simp add: process_image_iterations quality_search_def encoder_status_def similarity_def)
  from search_none_meets [OF this]
  have res: "snd (quality_search cfg env (input_path f) temp_path) = Inr (MAX_QUALITY cfg)"
    by (simp add: quality_search_def)
  from res process_image_final [OF res] process_image_result [OF res]
  show ?thesis by simp
qed

theorem no_quality_meets_target_witness:
  "map (\<lambda>p. encoder_status source_config never_met ''photo.png'' (probe_quality p))
      (iterations (process_image source_config never_met ''photo.png'')) = [0, 0, 0, 0, 0, 0]
   \<and> map (\<lambda>p. similarity source_config never_met ''photo.png'' (probe_quality p))
      (iterations (process_image source_config never_met ''photo.png''))
      = [1 / 2, 1 / 2, 1 / 2, 1 / 2, 1 / 2, 1 / 2]
   \<and> TARGET_SSIM source_config = 98 / 100
   \<and> final_status source_config never_met ''photo.png'' 95 = 0
   \<and> snd (quality_search source_config never_met (input_path ''photo.png'') temp_path) = Inr 95
   \<and> final_invocation (process_image source_config never_met ''photo.png'')
       = Some (final_cmd source_config 95 (input_path ''photo.png'') (output_path ''photo.png''))
   \<and> result (process_image source_config never_met ''photo.png'') = Inr 95"
proof -
  have run: "quality_search source_config never_met (input_path ''photo.png'') temp_path
        = (map (probe_at source_config (input_path ''photo.png'') temp_path)
            [\<lparr>low = 40, high = 95, best_quality = 95\<rparr>, \<lparr>low = 68, high = 95, best_quality = 95\<rparr>,
             \<lparr>low = 82, high = 95, best_quality = 95\<rparr>, \<lparr>low = 89, high = 95, best_quality = 95\<rparr>,
             \<lparr>low = 93, high = 95, best_quality = 95\<rparr>, \<lparr>low = 95, high = 95, best_quality = 95\<rparr>],
           Inr 95)"
    by (simp add: never_met_def toy_run)
  have st: "map (\<lambda>p. encoder_status source_config never_met ''photo.png'' (probe_quality p))
      (iterations (process_image source_config never_met ''photo.png'')) = [0, 0, 0, 0, 0, 0]"
    unfolding process_image_iterations run
    by (simp add: never_met_def toy_encoder_status)
  have sm: "map (\<lambda>p. similarity source_config never_met ''photo.png'' (probe_quality p))
      (iterations (process_image source_config never_met ''photo.png''))
      = [1 / 2, 1 / 2, 1 / 2, 1 / 2, 1 / 2, 1 / 2]"
    unfolding process_image_iterations run
    by (simp add: never_met_def toy_similarity probe_at_def mid_def)
  have fs: "final_status source_config never_met ''photo.png'' 95 = 0"
    by (simp add: final_status_def never_met_def toy_env_def)
  have hyp: "\<forall>p \<in> set (iterations (process_image source_config never_met ''photo.png'')).
             encoder_status source_config never_met ''photo.png'' (probe_quality p) = 0
             \<and> similarity source_config never_met ''photo.png'' (probe_quality p)
                 < TARGET_SSIM source_config"
    unfolding process_image_iterations run
    by (simp add: never_met_def toy_encoder_status toy_similarity probe_at_def mid_def
          source_config_def)
  from no_quality_meets_target [OF hyp] fs st sm show ?thesis
    by (simp add: source_config_def)
qed

text \<open>
  Claim C9, as amended. Throughout one image's search the best known quality never rises:
  it starts at the ceiling, the values it takes in turn are non-increasing, and the quality
  a pass tests (the value an update gives it) is strictly below its current value, except
  that a pass that tests the ceiling itself finds it still at the ceiling and leaves it
  there.
\<close>

theorem best_quality_never_rises:
  "hd (best_history (quality_search cfg env src tmp)) = MAX_QUALITY cfg
   \<and> sorted_wrt (\<lambda>a b. b \<le> a) (best_history (quality_search cfg env src tmp))
   \<and> (\<forall>p \<in> set (fst (quality_search cfg env src tmp)).
        probe_quality p < best_quality (probe_state p)
        \<or> (probe_quality p = MAX_QUALITY cfg \<and> best_quality (probe_state p) = MAX_QUALITY cfg))"
proof (intro conjI ballI)
  let ?s = "\<lparr>low = MIN_QUALITY cfg, high = MAX_QUALITY cfg, best_quality = MAX_QUALITY cfg\<rparr>"
  show "hd (best_history (quality_search cfg env src tmp)) = MAX_QUALITY cfg"
  proof (cases "MIN_QUALITY cfg \<le> MAX_QUALITY cfg")
    case True
    then have "low ?s \<le> high ?s" by simp
    from search_log_first [OF this, of cfg env src tmp]
    show ?thesis by (simp add: quality_search_def best_history_def hd_append hd_map)
  next
    case False
    then show ?thesis by (simp add: quality_search_def search_loop_exit)
  qed
  have "high ?s \<le> best_quality ?s" by simp
  from search_history_sorted [OF this, of cfg env src tmp]
  show "sorted_wrt (\<lambda>a b. b \<le> a) (best_history (quality_search cfg env src tmp))"
    by (simp add: quality_search_def)
next
  fix p
  assume "p \<in> set (fst (quality_search cfg env src tmp))"
  then have "p \<in> set (fst (search_loop cfg env src tmp
      \<lparr>low = MIN_QUALITY cfg, high = MAX_QUALITY cfg, best_quality = MAX_QUALITY cfg\<rparr>))"
    by (simp add: quality_search_def)
  then show "probe_quality p < best_quality (probe_state p)
        \<or> (probe_quality p = MAX_QUALITY cfg \<and> best_quality (probe_state p) = MAX_QUALITY cfg)"
    by (rule search_probe_below_best [rotated]) simp
qed

theorem best_quality_never_rises_witness:
  "best_history (quality_search source_config crossing_51 (input_path ''photo.png'') temp_path)
     = [95, 67, 53, 53, 53, 51, 51]
   \<and> sorted_wrt (\<lambda>a b. b \<le> a) [95, 67, 53, 53, 53, 51, 51 :: int]
   \<and> probe_at source_config (input_path ''photo.png'') temp_path
        \<lparr>low = 50, high = 52, best_quality = 53\<rparr>
       \<in> set (fst (quality_search source_config crossing_51 (input_path ''photo.png'') temp_path))
   \<and> mid \<lparr>low = 50, high = 52, best_quality = 53\<rparr> = 51 \<and> (51 :: int) < 53"
proof -
  have run: "quality_search source_config crossing_51 (input_path ''photo.png'') temp_path
        = (map (probe_at source_config (input_path ''photo.png'') temp_path)
            [\<lparr>low = 40, high = 95, best_quality = 95\<rparr>, \<lparr>low = 40, high = 66, best_quality = 67\<rparr>,
             \<lparr>low = 40, high = 52, best_quality = 53\<rparr>, \<lparr>low = 47, high = 52, best_quality = 53\<rparr>,
             \<lparr>low = 50, high = 52, best_quality = 53\<rparr>, \<lparr>low = 50, high = 50, best_quality = 51\<rparr>],
           Inr 51)"
    by (simp add: crossing_51_def toy_run)
  have hist: "best_history (quality_search source_config crossing_51 (input_path ''photo.png'') temp_path)
     = [95, 67, 53, 53, 53, 51, 51]"
    unfolding run by (simp add: best_history_def probe_at_def)
  have mem: "probe_at source_config (input_path ''photo.png'') temp_path
        \<lparr>low = 50, high = 52, best_quality = 53\<rparr>
       \<in> set (fst (quality_search source_config crossing_51 (input_path ''photo.png'') temp_path))"
    unfolding run by simp
  from best_quality_never_rises [of source_config crossing_51 "input_path ''photo.png''" temp_path]
  have "sorted_wrt (\<lambda>a b. b \<le> a)
          (best_history (quality_search source_config crossing_51 (input_path ''photo.png'') temp_path))"
    by blast
  then have "sorted_wrt (\<lambda>a b. b \<le> a) [95, 67, 53, 53, 53, 51, 51 :: int]"
    unfolding hist .
  with hist mem show ?thesis by (simp add: mid_def)
qed

theorem update_at_ceiling_not_strict:
  "probe_at source_config (input_path ''photo.png'') temp_path
        \<lparr>low = 95, high = 95, best_quality = 95\<rparr>
       \<in> set (fst (quality_search source_config only_95 (input_path ''photo.png'') temp_path))
   \<and> mid \<lparr>low = 95, high = 95, best_quality = 95\<rparr> = 95
   \<and> TARGET_SSIM source_config \<le> similarity source_config only_95 ''photo.png'' 95
   \<and> best_history (quality_search source_config only_95 (input_path ''photo.png'') temp_path)
       = [95, 95, 95, 95, 95, 95, 95]"
proof -
  have run: "quality_search source_config only_95 (input_path ''photo.png'') temp_path
        = (map (probe_at source_config (input_path ''photo.png'') temp_path)
            [\<lparr>low = 40, high = 95, best_quality = 95\<rparr>, \<lparr>low = 68, high = 95, best_quality = 95\<rparr>,
             \<lparr>low = 82, high = 95, best_quality = 95\<rparr>, \<lparr>low = 89, high = 95, best_quality = 95\<rparr>,
             \<lparr>low = 93, high = 95, best_quality = 95\<rparr>, \<lparr>low = 95, high = 95, best_quality = 95\<rparr>],
           Inr 95)"
    by (simp add: only_95_def toy_run)
  have hist: "best_history (quality_search source_config only_95 (input_path ''photo.png'') temp_path)
       = [95, 95, 95, 95, 95, 95, 95]"
    unfolding run by (simp add: best_history_def probe_at_def)
  have mem: "probe_at source_config (input_path ''photo.png'') temp_path
        \<lparr>low = 95, high = 95, best_quality = 95\<rparr>
       \<in> set (fst (quality_search source_config only_95 (input_path ''photo.png'') temp_path))"
    unfolding run by simp
  have "TARGET_SSIM source_config \<le> similarity source_config only_95 ''photo.png'' 95"
    by (simp add: only_95_def toy_similarity source_config_def)
  with hist mem show ?thesis by (simp add: mid_def)
qed

lemma input_path_not_flag:
  "input_path f \<noteq> ''-mt'' \<and> input_path f \<noteq> ''-sharp_yuv''"
proof (cases "f \<noteq> [] \<and> hd f = CHR ''/''")
  case True
  then obtain cs where "f = CHR ''/'' # cs" by (cases f) auto
  then show ?thesis by (simp add: input_path_def path_join_def)
next
  case False
  then show ?thesis
    by (cases f) (auto simp: input_path_def path_join_def SOURCE_FOLDER_def)
qed

lemma temp_path_eq: "temp_path = ''optimized_images/temp.webp''"
  by (simp add: temp_path_def path_join_def OUTPUT_FOLDER_def)

text \<open>
  Claim C7. Every encoder run of the search phase is the command with only the candidate
  quality (\<^verbatim>\<open>-q\<close>), the fixed compression effort (\<^verbatim>\<open>-m\<close>), the source and the scratch
  output: none of its arguments is one of the filter flags \<^verbatim>\<open>-mt\<close> and \<^verbatim>\<open>-sharp_yuv\<close>. The
  final encoder run, of which there is at most one and which comes last, has the same
  effort and in addition the two filter flags.
\<close>

theorem filters_on_final_pass_only:
  "(\<forall>p \<in> set (iterations (process_image cfg env f)).
      probe_cmd p = [Str ''cwebp'', Str ''-q'', StrOf (probe_quality p), Str ''-m'',
                     StrOf (WEBP_METHOD cfg), Str (input_path f), Str ''-o'', Str temp_path]
      \<and> Str ''-mt'' \<notin> set (probe_cmd p) \<and> Str ''-sharp_yuv'' \<notin> set (probe_cmd p))
   \<and> (\<forall>c. final_invocation (process_image cfg env f) = Some c \<longrightarrow>
        (\<exists>b. c = [Str ''cwebp'', Str ''-q'', StrOf b, Str ''-m'', StrOf (WEBP_METHOD cfg),
                  Str ''-mt'', Str ''-sharp_yuv'', Str (input_path f), Str ''-o'',
                  Str (output_path f)])
        \<and> invocations (process_image cfg env f)
            = map probe_cmd (iterations (process_image cfg env f)) @ [c])
   \<and> (final_invocation (process_image cfg env f) = None \<longrightarrow>
        invocations (process_image cfg env f)
          = map probe_cmd (iterations (process_image cfg env f)))"
proof (intro conjI ballI allI impI)
  fix p
  assume "p \<in> set (iterations (process_image cfg env f))"
  then have "p \<in> set (fst (search_loop cfg env (input_path f) temp_path
      \<lparr>low = MIN_QUALITY cfg, high = MAX_QUALITY cfg, best_quality = MAX_QUALITY cfg\<rparr>))"
    by (simp add: process_image_iterations quality_search_def)
  from search_log_probe [OF this]
  have cmd: "probe_cmd p = search_cmd cfg (probe_quality p) (input_path f) temp_path"
    by simp
  then show "probe_cmd p = [Str ''cwebp'', Str ''-q'', StrOf (probe_quality p), Str ''-m'',
                     StrOf (WEBP_METHOD cfg), Str (input_path f), Str ''-o'', Str temp_path]"
    by (simp add: search_cmd_def)
  from cmd show "Str ''-mt'' \<notin> set (probe_cmd p)"
    using input_path_not_flag [of f] by (auto simp: search_cmd_def temp_path_eq)
  from cmd show "Str ''-sharp_yuv'' \<notin> set (probe_cmd p)"
    using input_path_not_flag [of f] by (auto simp: search_cmd_def temp_path_eq)
next
  fix c
  assume c: "final_invocation (process_image cfg env f) = Some c"
  show "\<exists>b. c = [Str ''cwebp'', Str ''-q'', StrOf b, Str ''-m'', StrOf (WEBP_METHOD cfg),
                  Str ''-mt'', Str ''-sharp_yuv'', Str (input_path f), Str ''-o'',
                  Str (output_path f)]"
  proof (cases "snd (quality_search cfg env (input_path f) temp_path)")
    case (Inl e)
    from process_image_failed_search [OF this] c show ?thesis by simp
  next
    case (Inr b)
    from process_image_final [OF this] c show ?thesis by (auto simp: final_cmd_def)
  qed
  from c show "invocations (process_image cfg env f)
            = map probe_cmd (iterations (process_image cfg env f)) @ [c]"
    by (simp add: invocations_def)
next
  assume "final_invocation (process_image cfg env f) = None"
  then show "invocations (process_image cfg env f)
          = map probe_cmd (iterations (process_image cfg env f))"
    by (simp add: invocations_def)
qed

theorem filters_on_final_pass_only_witness:
  "invocations (process_image source_config crossing_51 ''photo.png'')
     = [[Str ''cwebp'', Str ''-q'', StrOf 67, Str ''-m'', StrOf 6, Str ''images/photo.png'',
         Str ''-o'', Str ''optimized_images/temp.webp''],
        [Str ''cwebp'', Str ''-q'', StrOf 53, Str ''-m'', StrOf 6, Str ''images/photo.png'',
         Str ''-o'', Str ''optimized_images/temp.webp''],
        [Str ''cwebp'', Str ''-q'', StrOf 46, Str ''-m'', StrOf 6, Str ''images/photo.png'',
         Str ''-o'', Str ''optimized_images/temp.webp''],
        [Str ''cwebp'', Str ''-q'', StrOf 49, Str ''-m'', StrOf 6, Str ''images/photo.png'',
         Str ''-o'', Str ''optimized_images/temp.webp''],
        [Str ''cwebp'', Str ''-q'', StrOf 51, Str ''-m'', StrOf 6, Str ''images/photo.png'',
         Str ''-o'', Str ''optimized_images/temp.webp''],
        [Str ''cwebp'', Str ''-q'', StrOf 50, Str ''-m'', StrOf 6, Str ''images/photo.png'',
         Str ''-o'', Str ''optimized_images/temp.webp''],
        [Str ''cwebp'', Str ''-q'', StrOf 51, Str ''-m'', StrOf 6, Str ''-mt'', Str ''-sharp_yuv'',
         Str ''images/photo.png'', Str ''-o'', Str ''optimized_images/photo.webp'']]
   \<and> final_invocation (process_image source_config crossing_51 ''photo.png'')
       = Some [Str ''cwebp'', Str ''-q'', StrOf 51, Str ''-m'', StrOf 6, Str ''-mt'',
               Str ''-sharp_yuv'', Str ''images/photo.png'', Str ''-o'',
               Str ''optimized_images/photo.webp'']"
proof -
  have run: "quality_search source_config crossing_51 (input_path ''photo.png'') temp_path
        = (map (probe_at source_config (input_path ''photo.png'') temp_path)
            [\<lparr>low = 40, high = 95, best_quality = 95\<rparr>, \<lparr>low = 40, high = 66, best_quality = 67\<rparr>,
             \<lparr>low = 40, high = 52, best_quality = 53\<rparr>, \<lparr>low = 47, high = 52, best_quality = 53\<rparr>,
             \<lparr>low = 50, high = 52, best_quality = 53\<rparr>, \<lparr>low = 50, high = 50, best_quality = 51\<rparr>],
           Inr 51)"
    by (simp add: crossing_51_def toy_run)
  have inp: "input_path ''photo.png'' = ''images/photo.png''"
    by (simp add: input_path_def path_join_def SOURCE_FOLDER_def)
  have outp: "output_path ''photo.png'' = ''optimized_images/photo.webp''"
    by (simp add: output_path_def path_join_def OUTPUT_FOLDER_def splitext_root_def)
  have its: "map probe_cmd (iterations (process_image source_config crossing_51 ''photo.png''))
      = map (\<lambda>q. search_cmd source_config q (input_path ''photo.png'') temp_path)
          [67, 53, 46, 49, 51, 50]"
    unfolding process_image_iterations run by (simp add: probe_at_def mid_def)
  have fin: "final_invocation (process_image source_config crossing_51 ''photo.png'')
       = Some (final_cmd source_config 51 (input_path ''photo.png'') (output_path ''photo.png''))"
    by (rule process_image_final) (simp add: run)
  from filters_on_final_pass_only [of source_config crossing_51 "''photo.png''"] fin
  have "invocations (process_image source_config crossing_51 ''photo.png'')
          = map probe_cmd (iterations (process_image source_config crossing_51 ''photo.png''))
            @ [final_cmd source_config 51 (input_path ''photo.png'') (output_path ''photo.png'')]"
    by blast
  with its fin show ?thesis
    by (simp add: search_cmd_def final_cmd_def inp outp temp_path_eq source_config_def)
qed

section \<open>The claims about failures\<close>

text \<open>An encoder run that fails is the last of the log, and its error is the result.\<close>

lemma search_fail_last:
  assumes "p \<in> set (fst (search_loop cfg env i t s))"
    and "probe_exit cfg env i t (probe_quality p) \<noteq> 0"
  shows "last (fst (search_loop cfg env i t s)) = p
         \<and> snd (search_loop cfg env i t s)
             = Inl (CalledProcessError (probe_exit cfg env i t (probe_quality p)) (probe_cmd p))"
  using assms
proof (induction s rule: search_induct [where cfg = cfg and env = env and i = i and t = t])
  case (exit s)
  then show ?case by (simp add: search_loop_exit)
next
  case (fail s)
  then show ?case by (simp add: search_loop_fail probe_at_def)
next
  case (hit s)
  let ?s' = "s\<lparr>best_quality := mid s, high := mid s - 1\<rparr>"
  from hit.prems hit.hyps have "p \<noteq> probe_at cfg i t s" by (auto simp: probe_at_def)
  with hit.prems(1) hit.hyps have mem: "p \<in> set (fst (search_loop cfg env i t ?s'))"
    by (simp add: search_loop_hit)
  then have "fst (search_loop cfg env i t ?s') \<noteq> []" by auto
  with hit.IH [OF mem hit.prems(2)] hit.hyps show ?case
    by (simp add: search_loop_hit)
next
  case (miss s)
  let ?s' = "s\<lparr>low := mid s + 1\<rparr>"
  from miss.prems miss.hyps have "p \<noteq> probe_at cfg i t s" by (auto simp: probe_at_def)
  with miss.prems(1) miss.hyps have mem: "p \<in> set (fst (search_loop cfg env i t ?s'))"
    by (simp add: search_loop_miss)
  then have "fst (search_loop cfg env i t ?s') \<noteq> []" by auto
  with miss.IH [OF mem miss.prems(2)] miss.hyps show ?case
    by (simp add: search_loop_miss)
qed

text \<open>The batch over a list that starts with images that all complete.\<close>

lemma batch_append:
  "aborted (batch cfg env xs) = None \<Longrightarrow>
     batch cfg env (xs @ ys)
       = (batch cfg env ys)\<lparr>processed := processed (batch cfg env xs) @ processed (batch cfg env ys)\<rparr>"
proof (induction xs)
  case Nil
  then show ?case by simp
next
  case (Cons x xs)
  show ?case
  proof (cases "is_source_image x")
    case False
    with Cons show ?thesis by simp
  next
    case True
    show ?thesis
    proof (cases "result (process_image cfg env x)")
      case (Inl e)
      with True Cons.prems show ?thesis by (simp add: Let_def)
    next
      case (Inr b)
      show ?thesis
      proof (cases "cleanup_and_sizes env (files_after_final cfg env x b) x")
        case (Inl e)
        with True Inr Cons.prems show ?thesis by (simp add: Let_def)
      next
        case sizes: (Inr sz)
        with True Inr Cons.prems have "aborted (batch cfg env xs) = None"
          by (simp add: Let_def)
        from Cons.IH [OF this] True Inr sizes show ?thesis by (simp add: Let_def)
      qed
    qed
  qed
qed

text \<open>
  Claim C3, as amended. If an encoder run fails while one image is processed, the
  processing of that image stops with the error: the failed run is its last, no final
  encoding is made. The error is not caught, so the batch stops there too: whatever names
  follow in the folder, no later image is processed. The images before it have been
  processed as they are without the failure.
\<close>

theorem encoder_failure_ends_batch:
  "(\<forall>p \<in> set (iterations (process_image cfg env f)).
      encoder_status cfg env f (probe_quality p) \<noteq> 0 \<longrightarrow>
        last (iterations (process_image cfg env f)) = p
        \<and> final_invocation (process_image cfg env f) = None
        \<and> result (process_image cfg env f)
            = Inl (CalledProcessError (encoder_status cfg env f (probe_quality p)) (probe_cmd p)))
   \<and> (aborted (batch cfg env before) = None \<and> is_source_image f
        \<and> result (process_image cfg env f) = Inl e \<longrightarrow>
        batch cfg env (before @ f # rest)
          = \<lparr>processed = processed (batch cfg env before) @ [(f, process_image cfg env f)],
             aborted = Some e\<rparr>)"
proof (intro conjI ballI impI)
  fix p
  assume "p \<in> set (iterations (process_image cfg env f))"
    and "encoder_status cfg env f (probe_quality p) \<noteq> 0"
  then have mem: "p \<in> set (fst (search_loop cfg env (input_path f) temp_path
        \<lparr>low = MIN_QUALITY cfg, high = MAX_QUALITY cfg, best_quality = MAX_QUALITY cfg\<rparr>))"
    and ne: "probe_exit cfg env (input_path f) temp_path (probe_quality p) \<noteq> 0"
    by (simp_all add: process_image_iterations quality_search_def encoder_status_def)
  from search_fail_last [OF mem ne]
  have l: "last (fst (quality_search cfg env (input_path f) temp_path)) = p"
    and r: "snd (quality_search cfg env (input_path f) temp_path)
          = Inl (CalledProcessError (encoder_status cfg env f (probe_quality p)) (probe_cmd p))"
    by (simp_all add: quality_search_def encoder_status_def)
  from l show "last (iterations (process_image cfg env f)) = p"
    by (simp add: process_image_iterations)
  from process_image_failed_search [OF r]
  show "final_invocation (process_image cfg env f) = None"
    and "result (process_image cfg env f)
         = Inl (CalledProcessError (encoder_status cfg env f (probe_quality p)) (probe_cmd p))"
    by simp_all
next
  assume a: "aborted (batch cfg env before) = None \<and> is_source_image f
        \<and> result (process_image cfg env f) = Inl e"
  then have "batch cfg env (f # rest)
      = \<lparr>processed = [(f, process_image cfg env f)], aborted = Some e\<rparr>"
    by (simp add: Let_def)
  with a batch_append [of cfg env before "f # rest"]
  show "batch cfg env (before @ f # rest)
          = \<lparr>processed = processed (batch cfg env before) @ [(f, process_image cfg env f)],
             aborted = Some e\<rparr>"
    by simp
qed

lemma is_source_image_examples:
  "is_source_image ''a.png''" "is_source_image ''b.png''" "is_source_image ''photo.png''"
  by (simp_all add: is_source_image_def endswith_def lower_def lower_char_def)

lemma source_config_values:
  "TARGET_SSIM source_config = 98 / 100" "MIN_QUALITY source_config = 40"
  "MAX_QUALITY source_config = 95" "WEBP_METHOD source_config = 6"
  by (simp_all add: source_config_def)

lemma example_paths:
  "input_path ''a.png'' = ''images/a.png''" "input_path ''b.png'' = ''images/b.png''"
  "output_path ''b.png'' = ''optimized_images/b.webp''"
  by (simp_all add: input_path_def output_path_def path_join_def SOURCE_FOLDER_def
        OUTPUT_FOLDER_def splitext_root_def)

lemma failing_first_a:
  "process_image source_config failing_first ''a.png''
     = \<lparr>iterations = [probe_at source_config (input_path ''a.png'') temp_path
                        \<lparr>low = 40, high = 95, best_quality = 95\<rparr>],
        final_invocation = None,
        result = Inl (CalledProcessError 1
                   (search_cmd source_config 67 (input_path ''a.png'') temp_path))\<rparr>"
proof -
  have "quality_search source_config failing_first (input_path ''a.png'') temp_path
      = ([probe_at source_config (input_path ''a.png'') temp_path
            \<lparr>low = 40, high = 95, best_quality = 95\<rparr>],
         Inl (CalledProcessError 1 (search_cmd source_config 67 (input_path ''a.png'') temp_path)))"
    by (simp add: failing_first_def toy_run search_cmd_def)
  then show ?thesis by (simp add: process_image_def Let_def)
qed

lemma failing_first_b:
  "result (process_image source_config failing_first ''b.png'') = Inr 40"
proof -
  have st: "probe_exit source_config failing_first (input_path ''b.png'') temp_path q = 0" for q
    by (simp add: failing_first_def toy_probe_exit search_cmd_def example_paths temp_path_eq)
  have sm: "0 \<le> q \<Longrightarrow> q < 256 \<Longrightarrow>
      probe_ssim source_config failing_first (input_path ''b.png'') temp_path q = 99 / 100" for q
    by (simp add: failing_first_def toy_probe_ssim)
  have "snd (quality_search source_config failing_first (input_path ''b.png'') temp_path) = Inr 40"
    by (simp add: quality_search_def source_config_values search_loop_hit search_loop_miss
          search_loop_exit mid_def st sm)
  from process_image_result [OF this] show ?thesis
    by (simp add: final_status_def failing_first_def toy_env_def final_cmd_def example_paths)
qed

lemma input_path_not_temp: "input_path f \<noteq> temp_path"
proof (cases "f \<noteq> [] \<and> hd f = CHR ''/''")
  case True
  then obtain cs where "f = CHR ''/'' # cs" by (cases f) auto
  then show ?thesis by (simp add: input_path_def path_join_def temp_path_eq)
next
  case False
  then show ?thesis
    by (cases f) (auto simp: input_path_def path_join_def SOURCE_FOLDER_def temp_path_eq)
qed

lemma toy_cleanup_and_sizes:
  "output_path f \<noteq> temp_path \<Longrightarrow>
     cleanup_and_sizes (toy_env status score files)
       (files_after_final cfg (toy_env status score files) f b) f = Inr (1024, 1024)"
  using input_path_not_temp [of f]
  by (simp add: cleanup_and_sizes_def files_after_final_def toy_files_after getsize_def
        toy_files_def toy_env_def Let_def)

lemma example_outputs:
  "output_path ''b.png'' \<noteq> temp_path" "output_path ''photo.png'' \<noteq> temp_path"
  by (simp_all add: output_path_def temp_path_def path_join_def OUTPUT_FOLDER_def
        splitext_root_def)

theorem encoder_failure_ends_batch_witness:
  "aborted (batch source_config failing_first [''b.png'']) = None
   \<and> processed (batch source_config failing_first [''b.png''])
       = [(''b.png'', process_image source_config failing_first ''b.png'')]
   \<and> is_source_image ''a.png''
   \<and> encoder_status source_config failing_first ''a.png'' 67 = 1
   \<and> iterations (process_image source_config failing_first ''a.png'')
       = [probe_at source_config (input_path ''a.png'') temp_path
            \<lparr>low = 40, high = 95, best_quality = 95\<rparr>]
   \<and> final_invocation (process_image source_config failing_first ''a.png'') = None
   \<and> result (process_image source_config failing_first ''a.png'')
       = Inl (CalledProcessError 1 (search_cmd source_config 67 (input_path ''a.png'') temp_path))
   \<and> batch source_config failing_first ([''b.png''] @ ''a.png'' # [''b.png'', ''photo.png''])
       = \<lparr>processed = [(''b.png'', process_image source_config failing_first ''b.png''),
                       (''a.png'', process_image source_config failing_first ''a.png'')],
          aborted = Some (CalledProcessError 1
                      (search_cmd source_config 67 (input_path ''a.png'') temp_path))\<rparr>"
proof -
  have b: "batch source_config failing_first [''b.png'']
      = \<lparr>processed = [(''b.png'', process_image source_config failing_first ''b.png'')],
         aborted = None\<rparr>"
  proof -
    have "cleanup_and_sizes failing_first
        (files_after_final source_config failing_first ''b.png'' 40) ''b.png'' = Inr (1024, 1024)"
      unfolding failing_first_def by (rule toy_cleanup_and_sizes) (rule example_outputs)
    then show ?thesis
      by (simp add: is_source_image_examples failing_first_b Let_def)
  qed
  have st: "encoder_status source_config failing_first ''a.png'' 67 = 1"
    by (simp add: failing_first_def toy_encoder_status search_cmd_def)
  from encoder_failure_ends_batch [of source_config failing_first "''a.png''" "[''b.png'']"
      "CalledProcessError 1 (search_cmd source_config 67 (input_path ''a.png'') temp_path)"
      "[''b.png'', ''photo.png'']"]
  have "batch source_config failing_first ([''b.png''] @ ''a.png'' # [''b.png'', ''photo.png''])
       = \<lparr>processed = processed (batch source_config failing_first [''b.png''])
                       @ [(''a.png'', process_image source_config failing_first ''a.png'')],
          aborted = Some (CalledProcessError 1
                      (search_cmd source_config 67 (input_path ''a.png'') temp_path))\<rparr>"
    using b is_source_image_examples(1) failing_first_a by simp
  with b st is_source_image_examples(1) show ?thesis
    by (simp add: failing_first_a)
qed

theorem batch_stops_at_failed_image:
  "listdir failing_first SOURCE_FOLDER = [''a.png'', ''b.png'']
   \<and> is_source_image ''a.png'' \<and> is_source_image ''b.png''
   \<and> encoder_status source_config failing_first ''a.png'' 67 = 1
   \<and> result (process_image source_config failing_first ''b.png'') = Inr 40
   \<and> auto_optimize_images source_config failing_first
       = Some \<lparr>processed = [(''a.png'', process_image source_config failing_first ''a.png'')],
               aborted = Some (CalledProcessError 1
                           (search_cmd source_config 67 (input_path ''a.png'') temp_path))\<rparr>"
proof -
  have st: "encoder_status source_config failing_first ''a.png'' 67 = 1"
    by (simp add: failing_first_def toy_encoder_status search_cmd_def)
  have ls: "listdir failing_first SOURCE_FOLDER = [''a.png'', ''b.png'']"
    by (simp add: failing_first_def toy_env_def)
  have tool: "is_tool_installed failing_first ''cwebp''"
    by (simp add: is_tool_installed_def failing_first_def toy_env_def)
  have "batch source_config failing_first [''a.png'', ''b.png'']
      = \<lparr>processed = [(''a.png'', process_image source_config failing_first ''a.png'')],
         aborted = Some (CalledProcessError 1
                     (search_cmd source_config 67 (input_path ''a.png'') temp_path))\<rparr>"
    by (simp add: is_source_image_examples failing_first_a Let_def)
  with st ls tool is_source_image_examples failing_first_b show ?thesis
    by (simp add: auto_optimize_images_def)
qed

section \<open>The evaluator, step by step\<close>

lemma arr_max_Max: "xs \<noteq> [] \<Longrightarrow> arr_max xs = Inr (Max (set xs))"
proof (cases xs)
  case Nil
  assume "xs \<noteq> []"
  with Nil show ?thesis by simp
next
  case (Cons a list)
  then show ?thesis
    using Max.set_eq_fold [of a list] by (simp add: arr_max_def)
qed

lemma arr_min_Min: "xs \<noteq> [] \<Longrightarrow> arr_min xs = Inr (Min (set xs))"
proof (cases xs)
  case Nil
  assume "xs \<noteq> []"
  with Nil show ?thesis by simp
next
  case (Cons a list)
  then show ?thesis
    using Min.set_eq_fold [of a list] by (simp add: arr_min_def)
qed

text \<open>What the block does once the two images are there.\<close>

lemma ssim_try_compared:
  assumes "compared env fs p1 p2 a b"
  shows "ssim_try env fs p1 p2
           = (if img_arr b = []
              then Inl ''zero-size array to reduction operation maximum which has no identity''
              else ssim env a b (data_range b))"
proof -
  from assms obtain img2 where o1: "image_open_L env fs p1 = Inr a"
    and o2: "image_open_L env fs p2 = Inr img2"
    and c: "if img_size a = img_size img2 then b = img2
            else resize_LANCZOS env img2 (img_size a) = Inr b"
    unfolding compared_def by blast
  have hand: "(if img_size a \<noteq> img_size img2
               then resize_LANCZOS env img2 (img_size a) else Inr img2) = Inr b"
    using c by (simp split: if_splits)
  show ?thesis
  proof (cases "img_arr b = []")
    case True
    then show ?thesis
      unfolding ssim_try_def o1 o2 by (simp add: hand arr_max_def)
  next
    case False
    then show ?thesis
      unfolding ssim_try_def o1 o2
      by (simp add: hand arr_max_Max arr_min_Min data_range_def)
  qed
qed

text \<open>When the two images are not both there, the block has raised.\<close>

lemma ssim_try_not_compared:
  assumes "\<forall>a b. \<not> compared env fs p1 p2 a b"
  shows "\<exists>e. ssim_try env fs p1 p2 = Inl e"
proof (cases "image_open_L env fs p1")
  case (Inl e)
  then show ?thesis by (simp add: ssim_try_def)
next
  case o1: (Inr a)
  show ?thesis
  proof (cases "image_open_L env fs p2")
    case (Inl e)
    with o1 show ?thesis by (simp add: ssim_try_def)
  next
    case o2: (Inr img2)
    show ?thesis
    proof (cases "img_size a = img_size img2")
      case True
      with o1 o2 have "compared env fs p1 p2 a img2" by (auto simp: compared_def)
      with assms show ?thesis by blast
    next
      case False
      show ?thesis
      proof (cases "resize_LANCZOS env img2 (img_size a)")
        case (Inl e)
        with o1 o2 False show ?thesis by (simp add: ssim_try_def)
      next
        case (Inr b)
        with o1 o2 False have "compared env fs p1 p2 a b" by (auto simp: compared_def)
        with assms show ?thesis by blast
      qed
    qed
  qed
qed

lemma compared_unique:
  "compared env fs p1 p2 a b \<Longrightarrow> compared env fs p1 p2 a' b' \<Longrightarrow> a' = a \<and> b' = b"
  by (auto simp: compared_def split: if_splits)







lemma window_world_open:
  "image_open_L window_world (all_files c) path
     = Inr (if c = 1 then one_pixel
            else if c = 2 then flat_image 200 else striped 0 255)"
  by (simp add: image_open_L_def all_files_def window_world_def toy_env_def)

lemma window_world_compared:
  "compared window_world (all_files c) p1 p2
     (if c = 1 then one_pixel
      else if c = 2 then flat_image 200 else striped 0 255)
     (if c = 1 then one_pixel
      else if c = 2 then flat_image 200 else striped 0 255)"
  unfolding compared_def window_world_open by simp

lemma data_range_examples:
  "data_range (flat_image w) = 0" "data_range one_pixel = 0"
  "data_range (striped 0 255) = 255" "data_range (striped 255 0) = 255"
  by (simp_all add: data_range_def flat_image_def striped_def one_pixel_def)

lemma one_pixel_nonempty: "img_arr one_pixel \<noteq> []"
  by (simp add: one_pixel_def)

lemma one_colour_examples:
  "one_colour (flat_image w)" "\<not> one_colour (striped 0 255)"
  by (simp_all add: one_colour_def flat_image_def striped_def)

lemma fits_window_examples:
  "fits_window (flat_image w)" "fits_window (striped v w)"
  "\<not> fits_window one_pixel"
  by (simp_all add: fits_window_def ssim_window_def flat_image_def striped_def one_pixel_def)

lemma window_world_ssim: "ssim window_world = window_ssim"
  by (simp add: window_world_def toy_env_def)


section \<open>The claims about the score\<close>

text \<open>
  Claim C2, as amended. For every pair of input paths, the score \<open>calculate_ssim\<close> returns
  is the value the SSIM of the library returns for the two images (the reference, and the
  candidate resampled when its size differs, with the range of the candidate's pixel
  values as data range), unchanged, when no step of the evaluation raises, and 0 when one
  does. So the score lies in the closed interval from 0 to 1 exactly when the value of the
  library for these two images does; the function brings no value into that interval.
\<close>

theorem score_is_library_value_or_zero:
  "(compared env fs img1_path img2_path img1 img2' \<and> img_arr img2' \<noteq> []
      \<and> ssim env img1 img2' (data_range img2') = Inr v \<longrightarrow>
      calculate_ssim env fs img1_path img2_path = (v, [])
      \<and> in_unit (fst (calculate_ssim env fs img1_path img2_path)) = in_unit v)
   \<and> ((\<forall>a b. compared env fs img1_path img2_path a b \<longrightarrow>
          img_arr b = [] \<or> (\<exists>e. ssim env a b (data_range b) = Inl e)) \<longrightarrow>
        fst (calculate_ssim env fs img1_path img2_path) = Float 0
        \<and> in_unit (fst (calculate_ssim env fs img1_path img2_path)))"
proof (intro conjI impI)
  assume a: "compared env fs img1_path img2_path img1 img2' \<and> img_arr img2' \<noteq> []
      \<and> ssim env img1 img2' (data_range img2') = Inr v"
  then have "compared env fs img1_path img2_path img1 img2'" by simp
  from ssim_try_compared [OF this] a
  show val: "calculate_ssim env fs img1_path img2_path = (v, [])"
    by (simp add: calculate_ssim_def)
  then show "in_unit (fst (calculate_ssim env fs img1_path img2_path)) = in_unit v"
    by simp
next
  assume a: "\<forall>a b. compared env fs img1_path img2_path a b \<longrightarrow>
          img_arr b = [] \<or> (\<exists>e. ssim env a b (data_range b) = Inl e)"
  have "\<exists>e. ssim_try env fs img1_path img2_path = Inl e"
  proof (cases "\<exists>a b. compared env fs img1_path img2_path a b")
    case False
    then show ?thesis by (intro ssim_try_not_compared) simp
  next
    case True
    then obtain a' b' where c: "compared env fs img1_path img2_path a' b'" by blast
    with a have "img_arr b' = [] \<or> (\<exists>e. ssim env a' b' (data_range b') = Inl e)" by blast
    with ssim_try_compared [OF c] show ?thesis by auto
  qed
  then obtain e where "ssim_try env fs img1_path img2_path = Inl e" ..
  then have z: "fst (calculate_ssim env fs img1_path img2_path) = Float 0"
    by (simp add: calculate_ssim_def)
  then show "fst (calculate_ssim env fs img1_path img2_path) = Float 0" .
  from z show "in_unit (fst (calculate_ssim env fs img1_path img2_path))" by simp
qed

theorem score_is_library_value_or_zero_witness:
  "compared crossing_51
     (toy_files (search_cmd source_config 67 (input_path ''photo.png'') temp_path))
     (input_path ''photo.png'') temp_path (flat_image 0) (flat_image 67)
   \<and> img_arr (flat_image 67) \<noteq> []
   \<and> ssim crossing_51 (flat_image 0) (flat_image 67) (data_range (flat_image 67))
       = Inr (Float (99 / 100))
   \<and> calculate_ssim crossing_51
       (toy_files (search_cmd source_config 67 (input_path ''photo.png'') temp_path))
       (input_path ''photo.png'') temp_path = (Float (99 / 100), [])
   \<and> in_unit (Float (99 / 100))"
proof -
  let ?fs = "toy_files (search_cmd source_config 67 (input_path ''photo.png'') temp_path)"
  have q: "quality_arg (search_cmd source_config 67 (input_path ''photo.png'') temp_path) = 67"
    by (simp add: quality_arg_def search_cmd_def)
  have l: "last (search_cmd source_config 67 (input_path ''photo.png'') temp_path) = Str temp_path"
    "search_cmd source_config 67 (input_path ''photo.png'') temp_path \<noteq> []"
    by (simp_all add: search_cmd_def)
  have o1: "image_open_L crossing_51 ?fs (input_path ''photo.png'') = Inr (flat_image 0)"
    unfolding crossing_51_def toy_image_open using l input_path_not_temp [of "''photo.png''"]
    by simp
  have o2: "image_open_L crossing_51 ?fs temp_path = Inr (flat_image 67)"
    unfolding crossing_51_def toy_image_open using l q by simp
  have c: "compared crossing_51 ?fs (input_path ''photo.png'') temp_path
      (flat_image 0) (flat_image 67)"
    unfolding compared_def using o1 o2 by (simp add: flat_image_def)
  have ne: "img_arr (flat_image 67) \<noteq> []" by (simp add: flat_image_def)
  have lib: "ssim crossing_51 (flat_image 0) (flat_image 67) (data_range (flat_image 67))
       = Inr (Float (99 / 100))"
    by (simp add: crossing_51_def toy_env_def flat_image_def)
  from score_is_library_value_or_zero
    [of crossing_51 ?fs "input_path ''photo.png''" temp_path "flat_image 0" "flat_image 67"
      "Float (99 / 100)"] c ne lib
  have "calculate_ssim crossing_51 ?fs (input_path ''photo.png'') temp_path
      = (Float (99 / 100), [])"
    by blast
  with c ne lib show ?thesis by simp
qed

lemma striped_range:
  "arr_max (img_arr (striped 255 0)) = Inr 255" "arr_min (img_arr (striped 255 0)) = Inr 0"
  by (simp_all add: striped_def arr_max_Max arr_min_Min)

theorem negative_score_returned:
  "image_open_L negative_ssim
     (toy_files (search_cmd source_config 67 (input_path ''photo.png'') temp_path))
     (input_path ''photo.png'') = Inr (striped 0 255)
   \<and> image_open_L negative_ssim
       (toy_files (search_cmd source_config 67 (input_path ''photo.png'') temp_path))
       temp_path = Inr (striped 255 0)
   \<and> ssim negative_ssim (striped 0 255) (striped 255 0) (255 - 0) = Inr (Float (- (19 / 20)))
   \<and> calculate_ssim negative_ssim
       (toy_files (search_cmd source_config 67 (input_path ''photo.png'') temp_path))
       (input_path ''photo.png'') temp_path = (Float (- (19 / 20)), [])
   \<and> \<not> in_unit (Float (- (19 / 20)))"
proof -
  let ?fs = "toy_files (search_cmd source_config 67 (input_path ''photo.png'') temp_path)"
  have q: "quality_arg (search_cmd source_config 67 (input_path ''photo.png'') temp_path) = 67"
    by (simp add: quality_arg_def search_cmd_def)
  have l: "last (search_cmd source_config 67 (input_path ''photo.png'') temp_path) = Str temp_path"
    "search_cmd source_config 67 (input_path ''photo.png'') temp_path \<noteq> []"
    by (simp_all add: search_cmd_def)
  have o1: "image_open_L negative_ssim ?fs (input_path ''photo.png'') = Inr (striped 0 255)"
    using l input_path_not_temp [of "''photo.png''"]
    by (simp add: image_open_L_def toy_files_def negative_ssim_def toy_env_def)
  have o2: "image_open_L negative_ssim ?fs temp_path = Inr (striped 255 0)"
    using l q by (simp add: image_open_L_def toy_files_def negative_ssim_def toy_env_def)
  have lib: "ssim negative_ssim a b r = Inr (Float (- (19 / 20)))" for a b r
    by (simp add: negative_ssim_def toy_env_def)
  have sz: "img_size (striped 0 255) = img_size (striped 255 0)"
    by (simp add: striped_def)
  have "ssim_try negative_ssim ?fs (input_path ''photo.png'') temp_path
      = Inr (Float (- (19 / 20)))"
    by (simp add: ssim_try_def o1 o2 sz striped_range lib)
  then have "calculate_ssim negative_ssim ?fs (input_path ''photo.png'') temp_path
      = (Float (- (19 / 20)), [])"
    by (simp add: calculate_ssim_def)
  with o1 o2 lib show ?thesis by simp
qed

lemma data_range_not_one_colour:
  assumes "\<not> one_colour img"
  shows "img_arr img \<noteq> [] \<and> data_range img \<noteq> 0"
proof -
  from assms obtain x y where x: "x \<in> set (img_arr img)" and y: "y \<in> set (img_arr img)"
    and ne: "x \<noteq> y"
    by (auto simp: one_colour_def)
  from x have nonempty: "img_arr img \<noteq> []" by auto
  have "Max (set (img_arr img)) \<noteq> Min (set (img_arr img))"
  proof
    assume eq: "Max (set (img_arr img)) = Min (set (img_arr img))"
    have "x \<le> Max (set (img_arr img))" "Min (set (img_arr img)) \<le> x"
      "y \<le> Max (set (img_arr img))" "Min (set (img_arr img)) \<le> y"
      using x y by simp_all
    with eq have "x = y" by simp
    with ne show False ..
  qed
  then have "data_range img \<noteq> 0" by (simp add: data_range_def)
  with nonempty show ?thesis ..
qed

text \<open>
  Claim C8, as amended. For every pair of bit-for-bit identical input images that fit the
  window of the SSIM (both sides at least 7 pixels) and hold more than one pixel value,
  the evaluator returns a score of at least 0.999: it resamples nothing and hands the
  library the image against itself with a data range that is not 0, for which the library
  returns 0.999 or more, and returns that value as it is. For identical images smaller
  than the window the library raises and the evaluator returns 0 with a warning. In every
  case the score is what the library makes of the image against itself, under the range
  of its own pixel values.
\<close>

theorem identical_images_score:
  assumes "image_open_L env fs img1_path = Inr img"
    and "image_open_L env fs img2_path = Inr img"
  shows "(library_scores_identical env \<and> fits_window img \<and> \<not> one_colour img \<longrightarrow>
            (\<exists>v. calculate_ssim env fs img1_path img2_path = (Float v, []) \<and> 999 / 1000 \<le> v))
         \<and> (library_needs_window env \<and> \<not> fits_window img \<and> img_arr img \<noteq> [] \<longrightarrow>
              calculate_ssim env fs img1_path img2_path = (Float 0, [warning window_error]))
         \<and> (img_arr img \<noteq> [] \<longrightarrow>
              calculate_ssim env fs img1_path img2_path
                = (case ssim env img img (data_range img) of
                     Inl e \<Rightarrow> (Float 0, [warning e])
                   | Inr v \<Rightarrow> (v, [])))"
proof -
  from assms have "compared env fs img1_path img2_path img img"
    by (auto simp: compared_def)
  from ssim_try_compared [OF this]
  have block: "img_arr img \<noteq> [] \<Longrightarrow>
      ssim_try env fs img1_path img2_path = ssim env img img (data_range img)"
    by simp
  have pass: "calculate_ssim env fs img1_path img2_path
                = (case ssim env img img (data_range img) of
                     Inl e \<Rightarrow> (Float 0, [warning e])
                   | Inr v \<Rightarrow> (v, []))" if "img_arr img \<noteq> []"
    using block [OF that] by (simp add: calculate_ssim_def split: sum.splits)
  have good: "\<exists>v. calculate_ssim env fs img1_path img2_path = (Float v, []) \<and> 999 / 1000 \<le> v"
    if lib: "library_scores_identical env" and fits: "fits_window img"
      and colours: "\<not> one_colour img"
  proof -
    from data_range_not_one_colour [OF colours]
    have ne: "img_arr img \<noteq> []" and r: "data_range img \<noteq> 0" by simp_all
    from lib fits r obtain v where
      v: "ssim env img img (data_range img) = Inr (Float v)" and b: "999 / 1000 \<le> v"
      unfolding library_scores_identical_def by blast
    from pass [OF ne] v have "calculate_ssim env fs img1_path img2_path = (Float v, [])"
      by simp
    with b show ?thesis by blast
  qed
  have small: "calculate_ssim env fs img1_path img2_path = (Float 0, [warning window_error])"
    if lib: "library_needs_window env" and fits: "\<not> fits_window img"
      and ne: "img_arr img \<noteq> []"
  proof -
    from lib fits have "ssim env img img (data_range img) = Inl window_error"
      unfolding library_needs_window_def by blast
    with pass [OF ne] show ?thesis by simp
  qed
  from good small pass show ?thesis by blast
qed

lemma window_world_library:
  "library_scores_identical window_world" "library_needs_window window_world"
  by (simp_all add: library_scores_identical_def library_needs_window_def window_world_ssim
        window_ssim_def)

theorem identical_images_score_witness:
  "image_open_L window_world (all_files 3) (input_path ''photo.png'') = Inr (striped 0 255)
   \<and> image_open_L window_world (all_files 3) temp_path = Inr (striped 0 255)
   \<and> library_scores_identical window_world
   \<and> fits_window (striped 0 255) \<and> \<not> one_colour (striped 0 255)
   \<and> calculate_ssim window_world (all_files 3) (input_path ''photo.png'') temp_path
       = (Float 1, [])
   \<and> (999 / 1000 :: real) \<le> 1"
proof -
  have o: "image_open_L window_world (all_files 3) (input_path ''photo.png'') = Inr (striped 0 255)"
    "image_open_L window_world (all_files 3) temp_path = Inr (striped 0 255)"
    by (simp_all add: window_world_open)
  have lib: "ssim window_world (striped 0 255) (striped 0 255) (data_range (striped 0 255))
      = Inr (Float 1)"
    by (simp add: window_world_ssim window_ssim_def fits_window_examples data_range_examples)
  have ne: "img_arr (striped 0 255) \<noteq> []" by (simp add: striped_def)
  from identical_images_score [OF o] ne lib
  have "calculate_ssim window_world (all_files 3) (input_path ''photo.png'') temp_path
       = (Float 1, [])"
    by simp
  with o window_world_library(1) fits_window_examples(2) [of 0 255] one_colour_examples(2)
  show ?thesis by simp
qed

theorem identical_one_pixel_images_score_zero:
  "image_open_L window_world (all_files 1) (input_path ''photo.png'')
     = Inr one_pixel
   \<and> image_open_L window_world (all_files 1) temp_path
       = Inr one_pixel
   \<and> ssim window_world one_pixel
        one_pixel 0 = Inl window_error
   \<and> calculate_ssim window_world (all_files 1) (input_path ''photo.png'') temp_path
       = (Float 0, [warning window_error])
   \<and> \<not> at_least (999 / 1000) (Float 0)
   \<and> image_open_L window_world (all_files 2) (input_path ''photo.png'')
       = image_open_L window_world (all_files 2) temp_path
   \<and> fst (calculate_ssim window_world (all_files 2) (input_path ''photo.png'') temp_path) = NaN
   \<and> \<not> at_least (999 / 1000) NaN"
proof -
  have lib: "ssim window_world one_pixel one_pixel 0 = Inl window_error"
    by (simp add: window_world_ssim window_ssim_def fits_window_examples)
  from ssim_try_compared [OF window_world_compared [of 1 "input_path ''photo.png''" temp_path]]
  have "ssim_try window_world (all_files 1) (input_path ''photo.png'') temp_path
      = Inl window_error"
    using lib by (simp add: data_range_examples one_pixel_nonempty)
  then have one: "calculate_ssim window_world (all_files 1) (input_path ''photo.png'') temp_path
      = (Float 0, [warning window_error])"
    by (simp add: calculate_ssim_def)
  have lib2: "ssim window_world (flat_image 200) (flat_image 200) 0 = Inr NaN"
    by (simp add: window_world_ssim window_ssim_def fits_window_examples one_colour_examples)
  have ne: "img_arr (flat_image 200) \<noteq> []" by (simp add: flat_image_def)
  from ssim_try_compared [OF window_world_compared [of 2 "input_path ''photo.png''" temp_path]]
  have "ssim_try window_world (all_files 2) (input_path ''photo.png'') temp_path = Inr NaN"
    using ne lib2 by (simp add: data_range_examples)
  then have two: "fst (calculate_ssim window_world (all_files 2) (input_path ''photo.png'')
      temp_path) = NaN"
    by (simp add: calculate_ssim_def)
  from lib one two show ?thesis by (simp add: window_world_open)
qed

text \<open>
  The batch also ends at an image named like the scratch file: its output is the scratch
  file, the cleanup removes it, and its size cannot be read.
\<close>

lemma scratch_name_ends_batch:
  "output_path ''temp.png'' = temp_path
   \<and> result (process_image source_config crossing_51 ''temp.png'') = Inr 51
   \<and> batch source_config crossing_51 [''temp.png'', ''photo.png'']
       = \<lparr>processed = [(''temp.png'', process_image source_config crossing_51 ''temp.png'')],
          aborted = Some (FileNotFoundError ''optimized_images/temp.webp'')\<rparr>"
proof -
  have outp: "output_path ''temp.png'' = temp_path"
    by (simp add: output_path_def temp_path_def path_join_def OUTPUT_FOLDER_def
          splitext_root_def)
  have "snd (quality_search source_config crossing_51 (input_path ''temp.png'') temp_path) = Inr 51"
    by (simp add: crossing_51_def toy_run)
  from process_image_result [OF this]
  have res: "result (process_image source_config crossing_51 ''temp.png'') = Inr 51"
    by (simp add: final_status_def crossing_51_def toy_env_def)
  have img: "is_source_image ''temp.png''"
    by (simp add: is_source_image_def endswith_def lower_def lower_char_def)
  have "cleanup_and_sizes crossing_51
      (files_after_final source_config crossing_51 ''temp.png'' 51) ''temp.png''
      = Inl (FileNotFoundError ''optimized_images/temp.webp'')"
    using input_path_not_temp [of "''temp.png''"]
    by (simp add: cleanup_and_sizes_def files_after_final_def crossing_51_def toy_files_after
          toy_files_def getsize_def outp Let_def temp_path_eq)
  with res img outp show ?thesis by (simp add: Let_def)
qed

end
